theory Spec2Isabelle
  imports Complex_Main "HOL-Library.Sublist"
begin

section \<open>Errors\<close>

text \<open>
  Every exception the two source files can raise is a value of \<open>error\<close>; a function that
  can throw returns \<open>error + 'a\<close> with \<open>Inl\<close> for the exception.
  \<^item> \<open>FetchError m status\<close> is the class \<open>FetchError\<close> of \<^verbatim>\<open>service/dynamo.ts\<close>
    (message and HTTP status).
  \<^item> \<open>InvalidSelection\<close> is the \<open>Error\<close> thrown by \<open>createSelectionPredicate\<close>; its
    message is built from the offending selection, which the constructor carries.
  \<^item> \<open>ElementNotFound path\<close> is the \<open>Error\<close> thrown by \<open>getElementsByPath\<close>.
  \<^item> \<open>TypeError\<close> is JavaScript's own error for reading a property of \<open>undefined\<close>.
  \<^item> \<open>SyntaxError\<close> is what \<open>response.json()\<close> and \<open>JSON.parse\<close> raise on a body that is
    not JSON.
  \<^item> \<open>Rejected m\<close> is a rejected promise of an external collaborator (the host platform,
    the network, the token provider).
\<close>

record representationSelection =
  sel_type :: string
  sel_value :: string

datatype error =
    FetchError string int
  | InvalidSelection representationSelection
  | ElementNotFound string
  | TypeError
  | SyntaxError
  | Rejected string

section \<open>Selection predicate\<close>

text \<open>
  \<^verbatim>\<open>value.startsWith(prefix)\<close> of JavaScript, at position 0: the first
  \<open>length prefix\<close> code units of \<open>value\<close> are \<open>prefix\<close>.
\<close>

definition startsWith :: "string \<Rightarrow> string \<Rightarrow> bool" where
  "startsWith value' searchString = (take (length searchString) value' = searchString)"

text \<open>
  \<open>createSelectionPredicate(selection?)\<close>: the argument is optional, and the switch is on
  \<open>selection?.type\<close>; \<open>None\<close> is the \<open>undefined\<close> case.
\<close>

definition createSelectionPredicate ::
  "representationSelection option \<Rightarrow> error + (string \<Rightarrow> bool)" where
  "createSelectionPredicate selection =
     (case selection of
        None \<Rightarrow> Inr (\<lambda>_. True)
      | Some s \<Rightarrow>
          if sel_type s = ''equals'' then Inr (\<lambda>value'. value' = sel_value s)
          else if sel_type s = ''startsWith'' then Inr (\<lambda>value'. startsWith value' (sel_value s))
          else Inl (InvalidSelection s))"

section \<open>Volume features and the world transform\<close>

text \<open>
  JavaScript numbers are modelled as \<open>real\<close>: the finite doubles, without rounding. A
  transform is the 16-element array of the host's \<open>getWorldTransform\<close>; the code reads its
  elements 10 (vertical scale) and 14 (vertical translation).

  A feature's \<open>properties\<close> object is an extensible record: the spread
  \<^verbatim>\<open>...feature.properties\<close> keeps every other property, as a record update does. The
  \<open>elevation\<close> property may be absent (\<open>None\<close>); \<^verbatim>\<open>??\<close> takes its right operand exactly
  then. The ring type \<open>'r\<close> of the geometry is left open: rings are only handed to
  \<open>transformCoordinates\<close>, which lives in \<^verbatim>\<open>utils/transformCoordinates.ts\<close> and is a
  parameter \<open>tc\<close> here.
\<close>

type_synonym transform = "real list"

record properties =
  height :: real
  elevation :: "real option"

record 'r volume25D =
  feature_id :: string
  feature_properties :: properties
  coordinates :: "'r list"

record 'r featureCollection =
  fc_type :: string
  features :: "'r volume25D list"

text \<open>
  The callback of \<open>filteredVolume25DCollection.map\<close> in \<open>getVolume25DForSubTree\<close>.
  In \<^verbatim>\<open>(feature.properties.elevation ?? 0 * transform[10]) + transform[14]\<close> the product
  binds tighter than \<^verbatim>\<open>??\<close>, so the right operand of \<^verbatim>\<open>??\<close> is \<open>0 * transform[10]\<close>.
\<close>

definition transformFeature ::
  "(transform \<Rightarrow> 'r \<Rightarrow> 'r) \<Rightarrow> transform \<Rightarrow> 'r volume25D \<Rightarrow> 'r volume25D" where
  "transformFeature tc transform feature =
     feature\<lparr>
       feature_properties := (feature_properties feature)\<lparr>
         height := height (feature_properties feature) * transform ! 10,
         elevation := Some ((case elevation (feature_properties feature) of
                               Some e \<Rightarrow> e
                             | None \<Rightarrow> 0 * transform ! 10) + transform ! 14)\<rparr>,
       coordinates := map (tc transform) (coordinates feature)\<rparr>"

section \<open>Elements and the host platform\<close>

text \<open>
  An element of the host model, as far as the two walks read it: its URN, its children
  (key and URN of each; \<open>children\<close> may be absent) and the
  \<open>representations?.volume25DCollection\<close> entry. A representation is \<open>linked\<close> (a blob
  id), \<open>embedded-json\<close> (the collection itself) or of some other kind; each may carry a
  selection rule. The dictionary \<open>elements\<close> that the host returns with a recursive
  lookup is a map from URN to element.
\<close>

record child =
  key :: string
  child_urn :: string

datatype 'r representation =
    Linked string "representationSelection option"
  | EmbeddedJson "'r featureCollection" "representationSelection option"
  | OtherRepresentation string "representationSelection option"

record 'r element =
  urn :: string
  children :: "child list option"
  volume25DCollection :: "'r representation option"

type_synonym 'r elements = "string \<Rightarrow> 'r element option"

text \<open>\<^verbatim>\<open>element.children ?? []\<close> and \<^verbatim>\<open>element.children || []\<close>.\<close>

definition childrenOf :: "'r element \<Rightarrow> child list" where
  "childrenOf element = (case children element of None \<Rightarrow> [] | Some cs \<Rightarrow> cs)"

fun selection :: "'r representation \<Rightarrow> representationSelection option" where
  "selection (Linked blobId sel) = sel"
| "selection (EmbeddedJson data sel) = sel"
| "selection (OtherRepresentation ty sel) = sel"

text \<open>
  The calls of the host SDK (\<open>Forma\<close>) that the walks await. Each may reject.
  \<^item> \<open>getRootUrn\<close>: \<open>Forma.proposal.getRootUrn()\<close>;
  \<^item> \<open>elements_get urn\<close>: the \<open>elements\<close> of \<open>Forma.elements.get({urn, recursive: true})\<close>;
  \<^item> \<open>getByPath path\<close>: \<open>element\<close> and \<open>elements\<close> of
    \<open>Forma.elements.getByPath({path, recursive: true})\<close>;
  \<^item> \<open>blobs_get blobId\<close>: \<open>Forma.elements.blobs.get\<close> followed by the decoding and
    \<open>JSON.parse\<close> of \<open>loadVolume25Collection\<close>; \<open>Inr None\<close> is a blob that parses to a
    falsy value such as \<open>null\<close>;
  \<^item> \<open>getWorldTransform path\<close>: the \<open>transform\<close> of \<open>Forma.elements.getWorldTransform\<close>.
\<close>

record 'r host =
  getRootUrn :: "error + string"
  elements_get :: "string \<Rightarrow> error + 'r elements"
  getByPath :: "string \<Rightarrow> error + ('r element option \<times> 'r elements)"
  blobs_get :: "string \<Rightarrow> error + 'r featureCollection option"
  getWorldTransform :: "string \<Rightarrow> error + transform"

section \<open>Volume collection loader\<close>

definition loadVolume25Collection ::
  "'r host \<Rightarrow> 'r representation option \<Rightarrow> error + 'r featureCollection option" where
  "loadVolume25Collection h rep =
     (case rep of
        None \<Rightarrow> Inr None
      | Some (Linked blobId sel) \<Rightarrow> blobs_get h blobId
      | Some (EmbeddedJson data sel) \<Rightarrow> Inr (Some data)
      | Some (OtherRepresentation ty sel) \<Rightarrow> Inr None)"

text \<open>
  The \<open>while (stack.length)\<close> loop of \<open>getVolume25DForSubTree\<close>. The stack is kept with
  its top first: \<open>pop\<close> takes the head, and pushing the children in order leaves the last
  child on top, hence the \<open>rev\<close>. A stack entry holds \<open>elements[child.urn]\<close>, which is
  \<open>undefined\<close> (\<open>None\<close>) for a URN the dictionary lacks; reading
  \<open>element.representations\<close> of it throws. The element graph may be cyclic, so the loop
  takes fuel: one unit per iteration, \<open>None\<close> when it runs out with a non-empty stack.
\<close>

fun subTreeLoop ::
  "nat \<Rightarrow> 'r host \<Rightarrow> (transform \<Rightarrow> 'r \<Rightarrow> 'r) \<Rightarrow> 'r elements
     \<Rightarrow> (string \<times> 'r element option) list \<Rightarrow> 'r featureCollection list
     \<Rightarrow> (error + 'r featureCollection list) option" where
  "subTreeLoop fuel h tc elements [] collections = Some (Inr collections)"
| "subTreeLoop 0 h tc elements ((path, element) # stack) collections = None"
| "subTreeLoop (Suc fuel) h tc elements ((path, element) # stack) collections =
     (case element of
        None \<Rightarrow> Some (Inl TypeError)
      | Some el \<Rightarrow>
          let stack' = rev (map (\<lambda>child. (path @ ''/'' @ key child, elements (child_urn child)))
                              (childrenOf el)) @ stack
          in (case loadVolume25Collection h (volume25DCollection el) of
                Inl e \<Rightarrow> Some (Inl e)
              | Inr None \<Rightarrow> subTreeLoop fuel h tc elements stack' collections
              | Inr (Some volume25DCollection') \<Rightarrow>
                  (case getWorldTransform h path of
                     Inl e \<Rightarrow> Some (Inl e)
                   | Inr transform \<Rightarrow>
                       (case createSelectionPredicate
                               (case volume25DCollection el of None \<Rightarrow> None
                                | Some rep \<Rightarrow> selection rep) of
                          Inl e \<Rightarrow> Some (Inl e)
                        | Inr selectionPredicate \<Rightarrow>
                            subTreeLoop fuel h tc elements stack'
                              (collections @
                                 [\<lparr>fc_type = ''FeatureCollection'',
                                   features = map (transformFeature tc transform)
                                     (filter (\<lambda>f. selectionPredicate (feature_id f))
                                        (features volume25DCollection'))\<rparr>])))))"

text \<open>
  \<open>getVolume25DForSubTree(path)\<close>. The result type has an \<open>option\<close> so that
  JavaScript's \<open>undefined\<close> ("no collection") has a value, \<open>None\<close>, to be compared with;
  the \<open>return\<close> statement always builds an object. \<open>filter((fc) => !!fc)\<close> keeps every
  pushed collection (objects are truthy) and \<open>flat()\<close> concatenates the feature lists.
\<close>

definition getVolume25DForSubTree ::
  "nat \<Rightarrow> 'r host \<Rightarrow> (transform \<Rightarrow> 'r \<Rightarrow> 'r) \<Rightarrow> string
     \<Rightarrow> (error + 'r featureCollection option) option" where
  "getVolume25DForSubTree fuel h tc path =
     (case getByPath h path of
        Inl e \<Rightarrow> Some (Inl e)
      | Inr (element, elements) \<Rightarrow>
          (case subTreeLoop fuel h tc elements [(path, element)] [] of
             None \<Rightarrow> None
           | Some (Inl e) \<Rightarrow> Some (Inl e)
           | Some (Inr collections) \<Rightarrow>
               Some (Inr (Some \<lparr>fc_type = ''FeatureCollection'',
                                 features = concat (map features collections)\<rparr>))))"

section \<open>Full-model path enumeration\<close>

text \<open>\<^verbatim>\<open>s.split(sep)\<close> of JavaScript for a separator of one character.\<close>

fun split_sep :: "char \<Rightarrow> string \<Rightarrow> string list" where
  "split_sep sep [] = [[]]"
| "split_sep sep (x # xs) =
     (if x = sep then [] # split_sep sep xs
      else (case split_sep sep xs of
              [] \<Rightarrow> [[x]]
            | y # ys \<Rightarrow> (x # y) # ys))"

text \<open>
  The \<open>for (const key of keys)\<close> loop of \<open>getElementsByPath\<close>. \<open>element\<close> is \<open>None\<close> when
  the dictionary lacks the URN just looked up; reading \<open>element.children\<close> then throws.
\<close>

fun followKeys ::
  "'r elements \<Rightarrow> string \<Rightarrow> 'r element option \<Rightarrow> string list \<Rightarrow> error + 'r element option" where
  "followKeys elements path element [] = Inr element"
| "followKeys elements path element (k # keys) =
     (case element of
        None \<Rightarrow> Inl TypeError
      | Some el \<Rightarrow>
          (case find (\<lambda>child. key child = k) (childrenOf el) of
             None \<Rightarrow> Inl (ElementNotFound path)
           | Some child \<Rightarrow> followKeys elements path (elements (child_urn child)) keys))"

definition getElementsByPath ::
  "'r elements \<Rightarrow> string \<Rightarrow> string \<Rightarrow> error + 'r element option" where
  "getElementsByPath elements urn' path =
     (if path = ''root'' then Inr (elements urn')
      else followKeys elements path (elements urn') (drop 1 (split_sep CHR ''/'' path)))"

text \<open>
  \<open>findAllPaths(path)\<close> calls itself for every child; on a cyclic element graph the
  recursion never ends. The fuel bounds the depth of the recursion: \<open>None\<close> is a walk that
  did not finish within it. \<open>pushChildren\<close> is the \<open>for\<close> loop over the children, with
  the array \<open>paths\<close> built so far.
\<close>

fun findAllPaths ::
  "nat \<Rightarrow> 'r elements \<Rightarrow> string \<Rightarrow> string \<Rightarrow> (error + string list) option"
and pushChildren ::
  "nat \<Rightarrow> 'r elements \<Rightarrow> string \<Rightarrow> string \<Rightarrow> child list \<Rightarrow> string list
     \<Rightarrow> (error + string list) option" where
  "findAllPaths 0 elements urn' path = None"
| "findAllPaths (Suc fuel) elements urn' path =
     (case getElementsByPath elements urn' path of
        Inl e \<Rightarrow> Some (Inl e)
      | Inr None \<Rightarrow> Some (Inl TypeError)
      | Inr (Some element) \<Rightarrow> pushChildren fuel elements urn' path (childrenOf element) [path])"
| "pushChildren fuel elements urn' path [] paths = Some (Inr paths)"
| "pushChildren fuel elements urn' path (child # rest) paths =
     (case findAllPaths fuel elements urn' (path @ ''/'' @ key child) of
        None \<Rightarrow> None
      | Some (Inl e) \<Rightarrow> Some (Inl e)
      | Some (Inr sub) \<Rightarrow> pushChildren fuel elements urn' path rest (paths @ sub))"

definition getAllPaths :: "nat \<Rightarrow> 'r host \<Rightarrow> (error + string list) option" where
  "getAllPaths fuel h =
     (case getRootUrn h of
        Inl e \<Rightarrow> Some (Inl e)
      | Inr urn' \<Rightarrow>
          (case elements_get h urn' of
             Inl e \<Rightarrow> Some (Inl e)
           | Inr elements \<Rightarrow> findAllPaths fuel elements urn' ''root''))"

section \<open>Element trees\<close>

text \<open>
  The reference the walks are compared with. An element tree is the finite unfolding of
  an element along its child references: each node lists, in the order of \<open>children\<close>,
  the key of a child and the tree of the element the child's URN resolves to.
  \<open>tree_of elements el t\<close> holds when \<open>t\<close> is that unfolding; it exists exactly when every
  reference below \<open>el\<close> resolves and no reference path is cyclic. \<open>wf_keys\<close> is the
  invariant of the path data model: sibling keys are distinct and no key contains the
  path delimiter, so that a path addresses one node.
\<close>

datatype etree = ENode "(string \<times> etree) list"

inductive tree_of :: "'r elements \<Rightarrow> 'r element \<Rightarrow> etree \<Rightarrow> bool" for elements where
  "list_all2 (\<lambda>c kt. fst kt = key c
        \<and> (\<exists>el'. elements (child_urn c) = Some el' \<and> tree_of elements el' (snd kt)))
     (childrenOf el) kts
   \<Longrightarrow> tree_of elements el (ENode kts)"

fun wf_keys :: "etree \<Rightarrow> bool" where
  "wf_keys (ENode kts) =
     (distinct (map fst kts) \<and> (\<forall>(k, t) \<in> set kts. CHR ''/'' \<notin> set k \<and> wf_keys t))"

text \<open>The paths of a tree whose root has path \<open>p\<close>, parent before children, children in order.\<close>

fun preorder :: "string \<Rightarrow> etree \<Rightarrow> string list" where
  "preorder p (ENode kts) = p # concat (map (\<lambda>(k, t). preorder (p @ ''/'' @ k) t) kts)"

text \<open>The number of nodes of a tree: the fuel either walk needs.\<close>

fun nodes :: "etree \<Rightarrow> nat" where
  "nodes (ENode kts) = Suc (sum_list (map (\<lambda>(k, t). nodes t) kts))"

text \<open>
  \<open>reachable elements el p q\<close>: starting at the element \<open>el\<close>, whose path is \<open>p\<close>, the path
  \<open>q\<close> is reached by following child keys, each step appending \<open>/key\<close>.
\<close>

inductive reachable :: "'r elements \<Rightarrow> 'r element \<Rightarrow> string \<Rightarrow> string \<Rightarrow> bool"
  for elements where
  here: "reachable elements el p p"
| step: "c \<in> set (childrenOf el) \<Longrightarrow> elements (child_urn c) = Some el'
         \<Longrightarrow> reachable elements el' (p @ ''/'' @ key c) q
         \<Longrightarrow> reachable elements el p q"

section \<open>JSON values\<close>

text \<open>
  A JavaScript value as far as JSON carries it, plus \<open>undefined\<close>. It is the type of a
  parsed response body, of a value held in the UI state and of the \<open>value\<close> of a run
  input, which \<^verbatim>\<open>service/dynamo.ts\<close> declares as \<open>any\<close>. An object is the list of its
  properties in order.
\<close>

datatype jsval =
    JUndefined
  | JNull
  | JBool bool
  | JNum real
  | JStr string
  | JArr "jsval list"
  | JObj "(string \<times> jsval) list"

section \<open>Graph execution client: data\<close>

text \<open>
  \<open>GraphTarget\<close>, \<open>RunInputs\<close> and the requests and responses of \<open>fetch\<close>. A request
  body is the value handed to \<open>JSON.stringify\<close>: the run payload (its four flags are the
  constant \<open>false\<close>), the info request (its \<open>data\<close> flags are the constant \<open>true\<close>) or
  a \<open>{path}\<close> object. \<open>json\<close> of a response is the result of \<open>response.json()\<close>,
  \<open>None\<close> when the body is not JSON and the call rejects. An \<open>event\<close> is one observable
  step of a client call: a \<open>fetch\<close> with its two arguments as passed, or a \<open>setTimeout\<close>
  wait. A \<open>network\<close> answers a request, given the events before it; \<open>Inl\<close> is a
  rejected \<open>fetch\<close>.
\<close>

datatype graphTarget =
    PathGraphTarget string "bool option"
  | CurrentGraphTarget
  | JsonGraphTarget "jsval option" "string option"

record runInput =
  nodeId :: string
  ri_value :: jsval

datatype requestBody =
    RunBody graphTarget "runInput list"
  | InfoBody graphTarget
  | PathBody string

record requestInit =
  rq_method :: string
  rq_headers :: "(string \<times> string) list"
  rq_body :: "requestBody option"

record response =
  status :: int
  statusText :: string
  json :: "jsval option"

datatype event = Fetch string "requestInit option" | Sleep nat

type_synonym network = "event list \<Rightarrow> string \<Rightarrow> requestInit option \<Rightarrow> error + response"

text \<open>
  The fields of the class \<open>Dynamo\<close>. \<open>authProvider\<close> is optional; when present, awaiting
  it gives the header value or rejects.
\<close>

record dynamo =
  url :: string
  authProvider :: "(error + string) option"

text \<open>
  The \<open>Headers\<close> class compares header names without regard to ASCII case.
  \<open>setHeader\<close> is \<open>headers.set\<close>: it replaces every entry of that name.
\<close>

definition lowerChar :: "char \<Rightarrow> char" where
  "lowerChar c =
     (case map_of (zip ''ABCDEFGHIJKLMNOPQRSTUVWXYZ'' ''abcdefghijklmnopqrstuvwxyz'') c of
        Some l \<Rightarrow> l
      | None \<Rightarrow> c)"

definition sameHeaderName :: "string \<Rightarrow> string \<Rightarrow> bool" where
  "sameHeaderName a b = (map lowerChar a = map lowerChar b)"

definition hasHeader :: "(string \<times> string) list \<Rightarrow> string \<Rightarrow> bool" where
  "hasHeader hs name = list_ex (\<lambda>h. sameHeaderName (fst h) name) hs"

definition setHeader :: "(string \<times> string) list \<Rightarrow> string \<Rightarrow> string \<Rightarrow> (string \<times> string) list" where
  "setHeader hs name v = filter (\<lambda>h. \<not> sameHeaderName (fst h) name) hs @ [(name, v)]"

definition getHeader :: "(string \<times> string) list \<Rightarrow> string \<Rightarrow> string option" where
  "getHeader hs name = map_option snd (find (\<lambda>h. sameHeaderName (fst h) name) hs)"

text \<open>The global \<open>fetch\<close>: the network's answer, and the request appended to the trace.\<close>

definition fetch ::
  "network \<Rightarrow> string \<Rightarrow> requestInit option \<Rightarrow> event list \<Rightarrow> (error + response) \<times> event list" where
  "fetch net input init tr = (net tr input init, tr @ [Fetch input init])"

text \<open>
  The method \<open>_fetch\<close>. The header is injected only when a provider is configured,
  an \<open>init\<close> object was passed and its headers lack \<open>Authorization\<close>.
\<close>

definition auth_fetch ::
  "dynamo \<Rightarrow> network \<Rightarrow> string \<Rightarrow> requestInit option \<Rightarrow> event list
     \<Rightarrow> (error + response) \<times> event list" where
  "auth_fetch d net input init tr =
     (case (authProvider d, init) of
        (Some provider, Some i) \<Rightarrow>
          if \<not> hasHeader (rq_headers i) ''Authorization'' then
            (case provider of
               Inl e \<Rightarrow> (Inl e, tr)
             | Inr authzString \<Rightarrow>
                 fetch net input
                   (Some (i\<lparr>rq_headers := setHeader (rq_headers i) ''Authorization'' authzString\<rparr>))
                   tr)
          else fetch net input init tr
      | _ \<Rightarrow> fetch net input init tr)"

text \<open>
  The body of the \<open>while (true)\<close> loop of \<open>runAsync\<close>. The request to
  \<^verbatim>\<open>/v1/graph/results/${jobId}\<close> is commented out in the source; \<open>job\<close> is the object
  literal written in its place.
\<close>

record job =
  job_status :: string
  job_result :: jsval

definition cannedJob :: job where
  \<open>cannedJob = \<lparr>
     job_status = ''COMPLETE'',
     job_result = JObj [
       (''info'', JObj [
          (''issues'', JArr [
             JObj [(''nodeId'', JStr ''3071764a-815e-4e04-8b4d-2ce9e8ae81d1''),
                   (''nodeName'', JStr ''Integrate.ByRepresentations''),
                   (''type'', JStr ''WARNING''),
                   (''message'', JStr (''Integrate.ByRepresentations operation failed. ''
                      @ [CHR 0x0D, CHR 0x0A]
                      @ ''Object reference not set to an instance of an object.''))],
             JObj [(''nodeId'', JStr ''d9e5d783-b951-42e8-9bac-9d6c12aed9d1''),
                   (''nodeName'', JStr ''TerrainShape.ByCurve''),
                   (''type'', JStr ''WARNING''),
                   (''message'', JStr (''TerrainShape.ByCurve operation failed. ''
                      @ [CHR 0x0D, CHR 0x0A]
                      @ ''Unable to cast object of type ''
                      @ [CHR 0x27] @ ''System.String'' @ [CHR 0x27] @ '' to type ''
                      @ [CHR 0x27] @ ''System.Byte[]'' @ [CHR 0x27] @ ''.''))]]),
          (''status'', JStr ''WARNINGS''),
          (''outputs'', JArr [
             JObj [(''id'', JStr ''eecab10a-c774-4ee3-ae63-3ee6121e7fc4''),
                   (''name'', JStr ''SendElementsToForma''),
                   (''value'', JArr [
                      JStr ''[{"urn":"urn:adsk-forma-elements:integrate:pro_brv2lm8dmg:0a8429ef-2a63-41f8-bb52-89d9f46d6505:1728643644867","transform":[1.0,0.0,0.0,0.0,0.0,1.0,0.0,0.0,0.0,0.0,1.0,0.0,0.0,0.0,0.0,1.0]}]'',
                      JNull]),
                   (''valueString'', JObj [
                      (''count'', JNum 0),
                      (''value'', JStr ''List''),
                      (''items'', JObj [
                         (''0'', JObj [
                            (''path'', JArr [JStr ''0'']),
                            (''count'', JNum 0),
                            (''value'', JStr ''[{"urn":"urn:adsk-forma-elements:integrate:pro_brv2lm8dmg:0a8429ef-2a63-41f8-bb52-89d9f46d6505:1728643644867","transform":[1.0,0.0,0.0,0.0,0.0,1.0,0.0,0.0,0.0,0.0,1.0,0.0,0.0,0.0,0.0,1.0]}]'')]),
                         (''1'', JObj [
                            (''path'', JArr [JStr ''1'']),
                            (''count'', JNum 0)])])]),
                   (''type'', JStr ''SendElementsToForma'')]]),
          (''id'', JStr ''''),
          (''name'', JStr '''')])]\<rparr>\<close>

text \<open>
  The loop takes fuel, one unit per iteration; \<open>None\<close> is a loop that did not return
  within it. \<open>Sleep 200\<close> is the \<open>setTimeout(resolve, 200)\<close> between iterations.
\<close>

fun pollLoop :: "nat \<Rightarrow> event list \<Rightarrow> (error + jsval) option \<times> event list" where
  "pollLoop 0 tr = (None, tr)"
| "pollLoop (Suc fuel) tr =
     (let job = cannedJob in
      if job_status job = ''SUCCESS'' \<or> job_status job = ''COMPLETE''
      then (Some (Inr (job_result job)), tr)
      else if job_status job = ''FAILED'' then (Some (Inl (FetchError ''Job failed'' 500)), tr)
      else pollLoop fuel (tr @ [Sleep 200]))"


text \<open>
  Truthiness, property read (\<open>undefined\<close> for a missing property or a primitive; a
  repeated key keeps its last value, as \<open>JSON.parse\<close> does) and the string conversion
  of template literals and of the \<open>Error\<close> constructor. The decimal rendering of a number
  is the parameter \<open>fmt\<close>.
\<close>

fun truthy :: "jsval \<Rightarrow> bool" where
  "truthy JUndefined = False"
| "truthy JNull = False"
| "truthy (JBool b) = b"
| "truthy (JNum r) = (r \<noteq> 0)"
| "truthy (JStr s) = (s \<noteq> [])"
| "truthy (JArr vs) = True"
| "truthy (JObj kvs) = True"

fun getProp :: "jsval \<Rightarrow> string \<Rightarrow> jsval" where
  "getProp (JObj kvs) k = (case map_of (rev kvs) k of Some v \<Rightarrow> v | None \<Rightarrow> JUndefined)"
| "getProp v k = JUndefined"

fun joinWith :: "string \<Rightarrow> string list \<Rightarrow> string" where
  "joinWith sep [] = []"
| "joinWith sep [x] = x"
| "joinWith sep (x # y # ys) = x @ sep @ joinWith sep (y # ys)"

fun toString :: "(real \<Rightarrow> string) \<Rightarrow> jsval \<Rightarrow> string" where
  "toString fmt JUndefined = ''undefined''"
| "toString fmt JNull = ''null''"
| "toString fmt (JBool b) = (if b then ''true'' else ''false'')"
| "toString fmt (JNum r) = fmt r"
| "toString fmt (JStr s) = s"
| "toString fmt (JArr vs) =
     joinWith '','' (map (\<lambda>v. if v = JNull \<or> v = JUndefined then [] else toString fmt v) vs)"
| "toString fmt (JObj kvs) = ''[object Object]''"

section \<open>Graph execution client: operations\<close>

text \<open>
  \<open>runAsync\<close>: create the job, upload the payload with the plain \<open>fetch\<close>, trigger the
  job, then enter the loop. Destructuring \<open>null\<close> throws a \<open>TypeError\<close>. The response of
  the upload is bound to nothing.
\<close>

definition runAsync ::
  "(real \<Rightarrow> string) \<Rightarrow> dynamo \<Rightarrow> network \<Rightarrow> graphTarget \<Rightarrow> runInput list \<Rightarrow> nat \<Rightarrow> event list
     \<Rightarrow> (error + jsval) option \<times> event list" where
  "runAsync fmt d net target inputs fuel tr =
     (case auth_fetch d net (url d @ ''/v1/graph/job/create'')
             (Some \<lparr>rq_method = ''GET'', rq_headers = [], rq_body = None\<rparr>) tr of
        (Inl e, tr1) \<Rightarrow> (Some (Inl e), tr1)
      | (Inr createJob, tr1) \<Rightarrow>
          if status createJob \<noteq> 200
          then (Some (Inl (FetchError (statusText createJob) (status createJob))), tr1)
          else
            (case json createJob of
               None \<Rightarrow> (Some (Inl SyntaxError), tr1)
             | Some ticket \<Rightarrow>
                 if ticket = JNull then (Some (Inl TypeError), tr1)
                 else
                 let jobId = getProp ticket ''jobId''; uploadUrl = getProp ticket ''uploadUrl'' in
                 (case fetch net (toString fmt uploadUrl)
                         (Some \<lparr>rq_method = ''PUT'', rq_headers = [],
                                rq_body = Some (RunBody target inputs)\<rparr>) tr1 of
                    (Inl e, tr2) \<Rightarrow> (Some (Inl e), tr2)
                  | (Inr uploaded, tr2) \<Rightarrow>
                      (case auth_fetch d net
                              (url d @ ''/v1/graph/job/'' @ toString fmt jobId @ ''/run?passtoken=1'')
                              (Some \<lparr>rq_method = ''POST'', rq_headers = [], rq_body = None\<rparr>) tr2 of
                         (Inl e, tr3) \<Rightarrow> (Some (Inl e), tr3)
                       | (Inr response, tr3) \<Rightarrow>
                           if status response \<noteq> 200
                           then (Some (Inl (FetchError (statusText response) (status response))), tr3)
                           else pollLoop fuel tr3))))"

text \<open>\<open>await response.json()\<close> of an awaited \<open>fetch\<close>.\<close>

definition responseJson :: "(error + response) \<times> event list \<Rightarrow> (error + jsval) \<times> event list" where
  "responseJson r =
     (case r of
        (Inl e, tr) \<Rightarrow> (Inl e, tr)
      | (Inr response, tr) \<Rightarrow>
          (case json response of None \<Rightarrow> (Inl SyntaxError, tr) | Some v \<Rightarrow> (Inr v, tr)))"

text \<open>
  \<open>run\<close>; \<open>runSync\<close> is the module constant read from the page's query string.
  \<open>folder\<close> doubles every backslash of the path.
\<close>

definition run ::
  "bool \<Rightarrow> (real \<Rightarrow> string) \<Rightarrow> dynamo \<Rightarrow> network \<Rightarrow> graphTarget \<Rightarrow> runInput list \<Rightarrow> nat
     \<Rightarrow> event list \<Rightarrow> (error + jsval) option \<times> event list" where
  "run runSync fmt d net target inputs fuel tr =
     (if \<not> runSync \<and> \<not> startsWith (url d) ''http://localhost''
      then runAsync fmt d net target inputs fuel tr
      else
        (case responseJson (auth_fetch d net (url d @ ''/v1/graph/run'')
                (Some \<lparr>rq_method = ''POST'', rq_headers = [],
                       rq_body = Some (RunBody target inputs)\<rparr>) tr) of
           (r, tr') \<Rightarrow> (Some r, tr')))"

definition folder :: "dynamo \<Rightarrow> network \<Rightarrow> string \<Rightarrow> event list \<Rightarrow> (error + jsval) \<times> event list" where
  "folder d net path tr =
     responseJson (auth_fetch d net (url d @ ''/v1/graph-folder/info'')
       (Some \<lparr>rq_method = ''POST'', rq_headers = [],
              rq_body = Some (PathBody
                (concat (map (\<lambda>c. if c = CHR 0x5C then [CHR 0x5C, CHR 0x5C] else [c]) path)))\<rparr>)
       tr)"

definition info ::
  "(real \<Rightarrow> string) \<Rightarrow> dynamo \<Rightarrow> network \<Rightarrow> graphTarget \<Rightarrow> event list
     \<Rightarrow> (error + jsval) \<times> event list" where
  "info fmt d net target tr =
     (case auth_fetch d net (url d @ ''/v1/graph/info'')
             (Some \<lparr>rq_method = ''POST'', rq_headers = [], rq_body = Some (InfoBody target)\<rparr>) tr of
        (Inl e, tr') \<Rightarrow> (Inl e, tr')
      | (Inr response, tr') \<Rightarrow>
          (case json response of
             None \<Rightarrow> (Inl SyntaxError, tr')
           | Some body \<Rightarrow>
               if status response = 200 then (Inr body, tr')
               else
                 let title = getProp body ''title'' in
                 (Inl (FetchError
                         (toString fmt (if truthy title then title else JStr (statusText response)))
                         (status response)), tr')))"

definition trust :: "dynamo \<Rightarrow> network \<Rightarrow> string \<Rightarrow> event list \<Rightarrow> (error + jsval) \<times> event list" where
  "trust d net path tr =
     responseJson (auth_fetch d net (url d @ ''/v1/settings/trusted-folder'')
       (Some \<lparr>rq_method = ''POST'', rq_headers = [], rq_body = Some (PathBody path)\<rparr>) tr)"

definition serverInfo :: "dynamo \<Rightarrow> network \<Rightarrow> event list \<Rightarrow> (error + jsval) \<times> event list" where
  "serverInfo d net tr = responseJson (auth_fetch d net (url d @ ''/v1/server-info'') None tr)"

section \<open>Loading a script\<close>


datatype scriptResult = Init | Loading | ScriptError string | Loaded jsval





section \<open>Input materializer\<close>

text \<open>
  The callback of \<open>code.inputs.map\<close> in \<open>onRun\<close>. \<open>strategyOf\<close> is its chain of
  comparisons on \<open>type\<close> and \<open>name\<close>, in the order of the source; \<open>None\<close> is the final
  \<open>return { nodeId: id, value }\<close>. What a branch hands to \<open>JSON.stringify\<close> is assembled
  from calls of the host SDK; it is the parameter \<open>extract\<close>, given the branch and the
  value held in the UI state, and may reject. \<open>JSON.stringify\<close> itself is the parameter
  \<open>stringify\<close>. \<open>materializeAll\<close> is the \<open>Promise.all\<close>: the pairs in order, or an error.
\<close>

record input =
  input_id :: string
  input_name :: string
  input_type :: string

datatype strategy =
    SelectElementsExperimental
  | GetAllElementsExperimental
  | GetProjectExperimental
  | GetTerrainExperimental
  | SelectElements
  | GetAllElements
  | FormaTerrain
  | GetTerrain
  | GetProject
  | Triangles
  | Footprint
  | Metrics

definition strategyOf :: "string \<Rightarrow> string \<Rightarrow> strategy option" where
  "strategyOf type' name =
     (if type' = ''SelectElementsExperimental'' then Some SelectElementsExperimental
      else if type' = ''GetAllElementsExperimental'' then Some GetAllElementsExperimental
      else if type' = ''GetProjectExperimental'' then Some GetProjectExperimental
      else if type' = ''GetTerrainExperimental'' then Some GetTerrainExperimental
      else if type' = ''FormaSelectElements'' \<or> type' = ''FormaSelectElement''
              \<or> type' = ''SelectElements'' then Some SelectElements
      else if name = ''GetFormaElements'' \<or> type' = ''GetAllElements'' then Some GetAllElements
      else if type' = ''FormaTerrain'' then Some FormaTerrain
      else if type' = ''GetTerrain'' then Some GetTerrain
      else if type' = ''FormaProject'' \<or> type' = ''GetProject'' then Some GetProject
      else if name = ''Triangles'' \<or> type' = ''FormaSelectGeometry'' then Some Triangles
      else if name = ''Footprint'' \<or> type' = ''FormaSelectFootprints'' then Some Footprint
      else if name = ''Metrics'' \<or> type' = ''FormaSelectMetrics'' \<or> type' = ''SelectMetrics''
      then Some Metrics
      else None)"

definition materialize ::
  "(jsval \<Rightarrow> jsval) \<Rightarrow> (strategy \<Rightarrow> jsval \<Rightarrow> error + jsval) \<Rightarrow> (string \<Rightarrow> jsval) \<Rightarrow> input
     \<Rightarrow> error + runInput" where
  "materialize stringify extract state inp =
     (let value' = state (input_id inp) in
      case strategyOf (input_type inp) (input_name inp) of
        Some s \<Rightarrow>
          (case extract s value' of
             Inl e \<Rightarrow> Inl e
           | Inr logical \<Rightarrow> Inr \<lparr>nodeId = input_id inp, ri_value = stringify logical\<rparr>)
      | None \<Rightarrow> Inr \<lparr>nodeId = input_id inp, ri_value = value'\<rparr>)"

fun materializeAll ::
  "(jsval \<Rightarrow> jsval) \<Rightarrow> (strategy \<Rightarrow> jsval \<Rightarrow> error + jsval) \<Rightarrow> (string \<Rightarrow> jsval) \<Rightarrow> input list
     \<Rightarrow> error + runInput list" where
  "materializeAll stringify extract state [] = Inr []"
| "materializeAll stringify extract state (inp # inps) =
     (case materialize stringify extract state inp of
        Inl e \<Rightarrow> Inl e
      | Inr r \<Rightarrow>
          (case materializeAll stringify extract state inps of
             Inl e \<Rightarrow> Inl e
           | Inr rs \<Rightarrow> Inr (r # rs)))"

text \<open>
  Whether an event is a request sent with the \<open>Authorization\<close> header \<open>a\<close>; a wait is
  not a request. \<open>fetchedUrl\<close> is the first argument of a \<open>fetch\<close>.
  \<open>withUploadResponse net r\<close> is the network \<open>net\<close> with every \<open>PUT\<close> answered by \<open>r\<close>.
\<close>

definition carriesAuthorization :: "string \<Rightarrow> event \<Rightarrow> bool" where
  "carriesAuthorization a ev =
     (case ev of
        Fetch input (Some i) \<Rightarrow> getHeader (rq_headers i) ''Authorization'' = Some a
      | Fetch input None \<Rightarrow> False
      | Sleep ms \<Rightarrow> True)"

definition fetchedUrl :: "event \<Rightarrow> string option" where
  "fetchedUrl ev = (case ev of Fetch input init \<Rightarrow> Some input | Sleep ms \<Rightarrow> None)"

definition withUploadResponse :: "network \<Rightarrow> response \<Rightarrow> network" where
  "withUploadResponse net r tr input init =
     (if (case init of Some i \<Rightarrow> rq_method i = ''PUT'' | None \<Rightarrow> False) then Inr r
      else net tr input init)"

section \<open>A sample model\<close>

text \<open>
  A small model for the concrete instances below: a root with the children \<open>a\<close> and
  \<open>b\<close>; \<open>a\<close> has the children \<open>c\<close> and \<open>d\<close>, \<open>b\<close> has the child \<open>c\<close>, which is the same
  element as \<open>a\<close>'s \<open>c\<close>. Element \<open>a\<close> embeds a collection of one feature, \<open>v1\<close>, with the
  selection rule \<open>equals("v2")\<close>, so nothing of it is kept; element \<open>c\<close> has a
  representation of another kind. Rings are lists of coordinate pairs.
\<close>

type_synonym ring = "(real \<times> real) list"

definition identityTransform :: transform where
  "identityTransform = [1, 0, 0, 0, 0, 1, 0, 0, 0, 0, 1, 0, 0, 0, 0, 1]"

definition sampleRoot :: "ring element" where
  "sampleRoot = \<lparr>urn = ''r'',
     children = Some [\<lparr>key = ''a'', child_urn = ''ua''\<rparr>, \<lparr>key = ''b'', child_urn = ''ub''\<rparr>],
     volume25DCollection = None\<rparr>"

definition sampleA :: "ring element" where
  "sampleA = \<lparr>urn = ''ua'',
     children = Some [\<lparr>key = ''c'', child_urn = ''uc''\<rparr>, \<lparr>key = ''d'', child_urn = ''ud''\<rparr>],
     volume25DCollection = Some (EmbeddedJson
       \<lparr>fc_type = ''FeatureCollection'',
        features = [\<lparr>feature_id = ''v1'',
                     feature_properties = \<lparr>height = 4, elevation = None\<rparr>,
                     coordinates = [[(0, 0), (1, 0), (1, 1), (0, 0)]]\<rparr>]\<rparr>
       (Some \<lparr>sel_type = ''equals'', sel_value = ''v2''\<rparr>))\<rparr>"

definition sampleB :: "ring element" where
  "sampleB = \<lparr>urn = ''ub'', children = Some [\<lparr>key = ''c'', child_urn = ''uc''\<rparr>],
     volume25DCollection = None\<rparr>"

definition sampleC :: "ring element" where
  "sampleC = \<lparr>urn = ''uc'', children = None,
     volume25DCollection = Some (OtherRepresentation ''linked-json'' None)\<rparr>"

definition sampleD :: "ring element" where
  "sampleD = \<lparr>urn = ''ud'', children = Some [], volume25DCollection = None\<rparr>"

definition sampleElements :: "ring elements" where
  "sampleElements u =
     (if u = ''r'' then Some sampleRoot else if u = ''ua'' then Some sampleA
      else if u = ''ub'' then Some sampleB else if u = ''uc'' then Some sampleC
      else if u = ''ud'' then Some sampleD else None)"

definition sampleHost :: "ring host" where
  "sampleHost = \<lparr>getRootUrn = Inr ''r'',
     elements_get = (\<lambda>u. if u = ''r'' then Inr sampleElements else Inl (Rejected ''not found'')),
     getByPath = (\<lambda>path. if path = ''root'' then Inr (Some sampleRoot, sampleElements)
                          else if path = ''root/b'' then Inr (Some sampleB, sampleElements)
                          else Inl (Rejected ''not found'')),
     blobs_get = (\<lambda>blobId. Inl (Rejected ''no such blob'')),
     getWorldTransform = (\<lambda>path. Inr identityTransform)\<rparr>"

definition sampleTree :: etree where
  "sampleTree = ENode [(''a'', ENode [(''c'', ENode []), (''d'', ENode [])]),
                       (''b'', ENode [(''c'', ENode [])])]"

text \<open>
  A client with a token provider, and the network of the polling scenario: job creation
  answers \<open>{jobId: "j1", uploadUrl: "https://x"}\<close>, the upload answers with the given
  status, the trigger answers 200, the results endpoint answers \<open>RUNNING\<close> twice and then
  \<open>COMPLETE\<close> with \<open>scenarioResult\<close>, and the info endpoint answers 500 with the title
  \<open>Graph is not trusted.\<close> \<open>proxyNet\<close> answers every request with a 502 whose body is
  not JSON. The last four definitions are a UI state, and an extraction, an encoder and a
  decoder on the one value the extraction yields.
\<close>

definition sampleDynamo :: dynamo where
  "sampleDynamo = \<lparr>url = ''https://daas.example'', authProvider = Some (Inr ''Bearer t'')\<rparr>"

definition scenarioResult :: jsval where
  "scenarioResult = JObj [(''info'', JObj [(''id'', JStr ''g1''), (''name'', JStr ''graph''),
     (''status'', JStr ''OK''), (''issues'', JArr []), (''outputs'', JArr [])])]"

definition scenarioNet :: "int \<Rightarrow> network" where
  "scenarioNet uploadStatus tr input init =
     (if input = ''https://daas.example/v1/graph/job/create''
      then Inr \<lparr>status = 200, statusText = ''OK'',
                 json = Some (JObj [(''jobId'', JStr ''j1''), (''uploadUrl'', JStr ''https://x'')])\<rparr>
      else if input = ''https://x''
      then Inr \<lparr>status = uploadStatus, statusText = '''', json = None\<rparr>
      else if input = ''https://daas.example/v1/graph/job/j1/run?passtoken=1''
      then Inr \<lparr>status = 200, statusText = ''OK'', json = None\<rparr>
      else if input = ''https://daas.example/v1/graph/results/j1''
      then (if length (filter (\<lambda>ev. fetchedUrl ev = Some input) tr) < 2
            then Inr \<lparr>status = 200, statusText = ''OK'',
                       json = Some (JObj [(''status'', JStr ''RUNNING'')])\<rparr>
            else Inr \<lparr>status = 200, statusText = ''OK'',
                       json = Some (JObj [(''status'', JStr ''COMPLETE''),
                                          (''result'', scenarioResult)])\<rparr>)
      else if input = ''https://daas.example/v1/graph/info''
      then Inr \<lparr>status = 500, statusText = ''Internal Server Error'',
                 json = Some (JObj [(''title'', JStr ''Graph is not trusted.'')])\<rparr>
      else if input = ''https://daas.example/v1/server-info''
      then Inr \<lparr>status = 200, statusText = ''OK'',
                 json = Some (JObj [(''apiVersion'', JStr ''1''), (''dynamoVersion'', JStr ''3''),
                                    (''playerVersion'', JStr ''1'')])\<rparr>
      else Inr \<lparr>status = 404, statusText = ''Not Found'', json = None\<rparr>)"






section \<open>Selection predicate: what it accepts\<close>

lemma startsWith_iff: "startsWith value' v \<longleftrightarrow> (\<exists>rest. value' = v @ rest)"
proof
  assume "startsWith value' v"
  then have "value' = v @ drop (length v) value'"
    unfolding startsWith_def by (metis append_take_drop_id)
  then show "\<exists>rest. value' = v @ rest" ..
next
  assume "\<exists>rest. value' = v @ rest"
  then show "startsWith value' v"
    unfolding startsWith_def by auto
qed

text \<open>
  Claim C7. The predicate built from \<open>equals(v)\<close> accepts an id exactly when it is \<open>v\<close>;
  the one built from \<open>startsWith(v)\<close> accepts an id exactly when the id begins with \<open>v\<close>,
  so \<open>startsWith("ab")\<close> accepts \<open>"abc"\<close> and rejects \<open>"xab"\<close>; with no selection rule
  (match-all) every id is accepted; and a rule of any other kind makes
  \<open>createSelectionPredicate\<close> throw.
\<close>

theorem createSelectionPredicate_spec:
  "(\<exists>p. createSelectionPredicate (Some \<lparr>sel_type = ''equals'', sel_value = v\<rparr>) = Inr p
        \<and> (\<forall>i. p i \<longleftrightarrow> i = v))
   \<and> (\<exists>p. createSelectionPredicate (Some \<lparr>sel_type = ''startsWith'', sel_value = v\<rparr>) = Inr p
        \<and> (\<forall>i. p i \<longleftrightarrow> (\<exists>rest. i = v @ rest)))
   \<and> (\<exists>p. createSelectionPredicate (Some \<lparr>sel_type = ''startsWith'', sel_value = ''ab''\<rparr>) = Inr p
        \<and> p ''abc'' \<and> \<not> p ''xab'')
   \<and> (\<exists>p. createSelectionPredicate None = Inr p \<and> (\<forall>i. p i))
   \<and> (sel_type s \<noteq> ''equals'' \<and> sel_type s \<noteq> ''startsWith''
        \<longrightarrow> createSelectionPredicate (Some s) = Inl (InvalidSelection s))"
  by (simp add: createSelectionPredicate_def startsWith_iff)

theorem createSelectionPredicate_spec_witness:
  "sel_type \<lparr>sel_type = ''contains'', sel_value = ''a''\<rparr> \<noteq> ''equals''
   \<and> sel_type \<lparr>sel_type = ''contains'', sel_value = ''a''\<rparr> \<noteq> ''startsWith''
   \<and> createSelectionPredicate (Some \<lparr>sel_type = ''contains'', sel_value = ''a''\<rparr>)
       = Inl (InvalidSelection \<lparr>sel_type = ''contains'', sel_value = ''a''\<rparr>)"
  using createSelectionPredicate_spec
    [of "''a''" "\<lparr>sel_type = ''contains'', sel_value = ''a''\<rparr>"]
  by simp

section \<open>Elevation of a transformed feature\<close>

text \<open>
  Claim C5. A feature without an elevation property, transformed with a world transform
  whose vertical translation (element 14) is \<open>T\<close> and whose vertical scale (element 10)
  is any \<open>S\<close>, gets the elevation \<open>T\<close> exactly.
\<close>

theorem elevation_absent:
  assumes "length transform = 16"
    and "elevation (feature_properties feature) = None"
    and "transform ! 10 = S" and "transform ! 14 = T"
  shows "elevation (feature_properties (transformFeature tc transform feature)) = Some T"
  using assms by (simp add: transformFeature_def)

theorem elevation_absent_witness:
  "length [1, 0, 0, 0, 0, 1, 0, 0, 0, 0, 2, 0, 0, 0, 5, 1 :: real] = 16
   \<and> elevation (feature_properties
        \<lparr>feature_id = ''f'', feature_properties = \<lparr>height = 4, elevation = None\<rparr>,
         coordinates = ([] :: unit list)\<rparr>) = None
   \<and> elevation (feature_properties (transformFeature (\<lambda>t r. r)
        [1, 0, 0, 0, 0, 1, 0, 0, 0, 0, 2, 0, 0, 0, 5, 1]
        \<lparr>feature_id = ''f'', feature_properties = \<lparr>height = 4, elevation = None\<rparr>,
         coordinates = ([] :: unit list)\<rparr>)) = Some 5"
  using elevation_absent
    [of "[1, 0, 0, 0, 0, 1, 0, 0, 0, 0, 2, 0, 0, 0, 5, 1]"
        "\<lparr>feature_id = ''f'', feature_properties = \<lparr>height = 4, elevation = None\<rparr>,
          coordinates = ([] :: unit list)\<rparr>" 2 5 "\<lambda>t r. r"]
  by simp

text \<open>
  Claim C1 asks for \<open>S * e + T\<close> when the elevation \<open>e\<close> is present. The code returns
  \<open>e + T\<close>: the scale is applied to the literal zero only. With \<open>e = 3\<close>, \<open>S = 2\<close> and
  \<open>T = 5\<close> the transformed elevation is 8, not 11.
\<close>

theorem elevation_present_unscaled:
  "elevation (feature_properties (transformFeature (\<lambda>t r. r)
      [1, 0, 0, 0, 0, 1, 0, 0, 0, 0, 2, 0, 0, 0, 5, 1]
      \<lparr>feature_id = ''f'', feature_properties = \<lparr>height = 4, elevation = Some 3\<rparr>,
       coordinates = ([] :: unit list)\<rparr>)) = Some 8
   \<and> (8 :: real) \<noteq> 2 * 3 + 5"
  by (simp add: transformFeature_def)

section \<open>The sample model is a tree\<close>

lemma sample_tree_of: "tree_of sampleElements sampleRoot sampleTree"
  unfolding sampleTree_def
  by (auto intro!: tree_of.intros
      simp: childrenOf_def sampleRoot_def sampleA_def sampleB_def sampleC_def sampleD_def
        sampleElements_def)

lemma sample_nodes: "nodes sampleTree = 6"
  by (simp add: sampleTree_def)

lemma sample_getByPath: "getByPath sampleHost ''root'' = Inr (Some sampleRoot, sampleElements)"
  by (simp add: sampleHost_def)

lemma sample_loop:
  "subTreeLoop 6 sampleHost (\<lambda>t r. r) sampleElements [(''root'', Some sampleRoot)] []
     = Some (Inr [\<lparr>fc_type = ''FeatureCollection'', features = []\<rparr>])"
  by (simp add: numeral_eq_Suc childrenOf_def sampleRoot_def sampleA_def sampleB_def sampleC_def sampleD_def
        sampleElements_def sampleHost_def loadVolume25Collection_def createSelectionPredicate_def)


section \<open>Path enumeration against the element tree\<close>

lemma split_sep_nonempty: "split_sep sep s \<noteq> []"
  by (induction s) (auto split: list.splits)

lemma split_sep_append: "split_sep sep (a @ sep # b) = split_sep sep a @ split_sep sep b"
  by (induction a) (auto split: list.splits simp: split_sep_nonempty)

lemma split_sep_nosep: "sep \<notin> set k \<Longrightarrow> split_sep sep k = [k]"
  by (induction k) (auto split: list.splits)

lemma split_sep_child:
  "sep \<notin> set k \<Longrightarrow> drop 1 (split_sep sep (p @ [sep] @ k)) = drop 1 (split_sep sep p) @ [k]"
  using split_sep_nonempty [of sep p]
  by (cases "split_sep sep p") (auto simp: split_sep_append split_sep_nosep)

lemma followKeys_append:
  "followKeys es path e (ks @ ks') =
     (case followKeys es path e ks of Inl x \<Rightarrow> Inl x | Inr e' \<Rightarrow> followKeys es path e' ks')"
  by (induction ks arbitrary: e) (auto split: option.splits)

lemma find_distinct_key:
  "distinct (map key cs) \<Longrightarrow> c \<in> set cs \<Longrightarrow> find (\<lambda>x. key x = key c) cs = Some c"
  by (induction cs) (auto simp: rev_image_eqI)

lemma nodes_child: "(k, t) \<in> set kts \<Longrightarrow> nodes t \<le> sum_list (map (\<lambda>(k, t). nodes t) kts)"
  by (induction kts) auto

lemma tree_of_keys:
  "list_all2 (\<lambda>c kt. fst kt = key c \<and> Q c kt) cs kts \<Longrightarrow> map key cs = map fst kts"
  by (induction cs kts rule: list_all2_induct) auto

lemma getElementsByPath_located:
  assumes "\<And>path. followKeys es path (es u) (drop 1 (split_sep CHR ''/'' p)) = Inr (Some el)"
  shows "getElementsByPath es u p = Inr (Some el)"
proof (cases "p = ''root''")
  case True
  with assms [of p] show ?thesis by (simp add: getElementsByPath_def)
next
  case False
  with assms [of p] show ?thesis by (simp add: getElementsByPath_def)
qed

lemma located_child:
  assumes loc: "\<And>path. followKeys es path (es u) (drop 1 (split_sep CHR ''/'' p)) = Inr (Some el)"
    and d: "distinct (map key (childrenOf el))"
    and c: "c \<in> set (childrenOf el)"
    and k: "CHR ''/'' \<notin> set (key c)"
  shows "followKeys es path (es u) (drop 1 (split_sep CHR ''/'' (p @ ''/'' @ key c)))
           = Inr (es (child_urn c))"
  using split_sep_child [OF k, of p] loc [of path] find_distinct_key [OF d c]
  by (simp add: followKeys_append)

lemma pushChildren_tree:
  assumes "list_all2 (\<lambda>c kt. findAllPaths n es u (p @ ''/'' @ key c)
              = Some (Inr (preorder (p @ ''/'' @ fst kt) (snd kt)))) cs kts"
  shows "pushChildren n es u p cs acc
           = Some (Inr (acc @ concat (map (\<lambda>(k, t). preorder (p @ ''/'' @ k) t) kts)))"
  using assms
  by (induction cs kts arbitrary: acc rule: list_all2_induct) (auto simp: case_prod_beta)

lemma findAllPaths_tree:
  assumes "tree_of es el t" and "wf_keys t"
    and "\<And>path. followKeys es path (es u) (drop 1 (split_sep CHR ''/'' p)) = Inr (Some el)"
    and "nodes t \<le> fuel"
  shows "findAllPaths fuel es u p = Some (Inr (preorder p t))"
  using assms
proof (induction t arbitrary: el p fuel rule: wf_keys.induct)
  case (1 kts)
  from "1.prems"(4) obtain n where fuel: "fuel = Suc n"
    by (cases fuel) auto
  from "1.prems"(1) have rel:
    "list_all2 (\<lambda>c kt. fst kt = key c
        \<and> (\<exists>el'. es (child_urn c) = Some el' \<and> tree_of es el' (snd kt))) (childrenOf el) kts"
    by (auto elim: tree_of.cases)
  have keys: "map key (childrenOf el) = map fst kts"
    using rel by (rule tree_of_keys)
  have d: "distinct (map key (childrenOf el))"
    using "1.prems"(2) keys by simp
  have "list_all2 (\<lambda>c kt. findAllPaths n es u (p @ ''/'' @ key c)
              = Some (Inr (preorder (p @ ''/'' @ fst kt) (snd kt)))) (childrenOf el) kts"
  proof (rule list.rel_mono_strong [OF rel], goal_cases)
    case (1 c kt)
    obtain k t' where kt: "kt = (k, t')" by (cases kt)
    from 1(3) kt obtain el' where k: "k = key c" and el': "es (child_urn c) = Some el'"
      and t': "tree_of es el' t'" by auto
    have wf: "CHR ''/'' \<notin> set k" "wf_keys t'"
      using "1.prems"(2) 1(2) kt by auto
    have loc: "\<And>path. followKeys es path (es u)
        (drop 1 (split_sep CHR ''/'' (p @ ''/'' @ key c))) = Inr (Some el')"
      using located_child [OF "1.prems"(3) d 1(1)] wf(1) k el' by simp
    have "nodes t' \<le> n"
      using nodes_child [of k t' kts] 1(2) kt "1.prems"(4) fuel by simp
    from "1.IH" [OF 1(2) kt [symmetric] t' wf(2) loc this]
    show ?case using k kt by simp
  qed
  then show ?case
    using getElementsByPath_located [OF "1.prems"(3)] fuel
    by (simp add: pushChildren_tree)
qed

lemma preorder_extends:
  "q \<in> set (preorder p t) \<Longrightarrow> \<exists>s. q = p @ s \<and> (s = [] \<or> hd s = CHR ''/'')"
proof (induction p t arbitrary: q rule: preorder.induct)
  case (1 p kts)
  show ?case
  proof (cases "q = p")
    case True
    then show ?thesis by simp
  next
    case False
    with "1.prems" obtain k t' where kt: "(k, t') \<in> set kts"
      and q: "q \<in> set (preorder (p @ ''/'' @ k) t')"
      by auto
    from "1.IH" [OF kt refl q] obtain s where "q = (p @ ''/'' @ k) @ s" by blast
    then have "q = p @ (''/'' @ k @ s) \<and> hd (''/'' @ k @ s) = CHR ''/''" by simp
    then show ?thesis by blast
  qed
qed

lemma preorder_child_key:
  assumes "q \<in> set (preorder (p @ ''/'' @ k) t)" and "CHR ''/'' \<notin> set k"
  shows "takeWhile (\<lambda>c. c \<noteq> CHR ''/'') (drop (Suc (length p)) q) = k"
proof -
  from preorder_extends [OF assms(1)] obtain s
    where q: "q = (p @ ''/'' @ k) @ s" and s: "s = [] \<or> hd s = CHR ''/''" by blast
  have "drop (Suc (length p)) q = k @ s" using q by simp
  moreover have "takeWhile (\<lambda>c. c \<noteq> CHR ''/'') (k @ s) = k"
    using assms(2) s by (cases s) (auto simp: takeWhile_tail takeWhile_eq_all_conv)
  ultimately show ?thesis by simp
qed

lemma preorder_child_longer:
  "q \<in> set (preorder (p @ ''/'' @ k) t) \<Longrightarrow> q \<noteq> p"
  using preorder_extends [of q "p @ ''/'' @ k" t] by auto

lemma distinct_children_preorder:
  assumes "distinct (map fst kts)"
    and "\<And>k t. (k, t) \<in> set kts \<Longrightarrow> CHR ''/'' \<notin> set k \<and> distinct (preorder (p @ ''/'' @ k) t)"
  shows "distinct (concat (map (\<lambda>(k, t). preorder (p @ ''/'' @ k) t) kts))"
  using assms
proof (induction kts)
  case Nil
  then show ?case by simp
next
  case (Cons kt kts)
  obtain k t where kt: "kt = (k, t)" by (cases kt)
  have k: "CHR ''/'' \<notin> set k" and dk: "distinct (preorder (p @ ''/'' @ k) t)"
    using Cons.prems(2) [of k t] kt by auto
  have rest: "distinct (concat (map (\<lambda>(k, t). preorder (p @ ''/'' @ k) t) kts))"
    using Cons.IH Cons.prems by auto
  have disj: "q \<notin> set (preorder (p @ ''/'' @ k') t')"
    if "q \<in> set (preorder (p @ ''/'' @ k) t)" and "(k', t') \<in> set kts" for q k' t'
  proof
    assume q': "q \<in> set (preorder (p @ ''/'' @ k') t')"
    have k': "CHR ''/'' \<notin> set k'" using Cons.prems(2) [of k' t'] that(2) by simp
    have "k = k'"
      using preorder_child_key [OF that(1) k] preorder_child_key [OF q' k'] by simp
    moreover have "k \<notin> fst ` set kts" using Cons.prems(1) kt by simp
    ultimately show False using that(2) by force
  qed
  show ?case using kt dk rest disj by auto
qed

lemma distinct_preorder: "wf_keys t \<Longrightarrow> distinct (preorder p t)"
proof (induction p t rule: preorder.induct)
  case (1 p kts)
  have "distinct (concat (map (\<lambda>(k, t). preorder (p @ ''/'' @ k) t) kts))"
  proof (rule distinct_children_preorder)
    show "distinct (map fst kts)" using "1.prems" by simp
  next
    fix k t assume kt: "(k, t) \<in> set kts"
    then have "wf_keys t" "CHR ''/'' \<notin> set k" using "1.prems" by auto
    with "1.IH" [OF kt refl] show "CHR ''/'' \<notin> set k \<and> distinct (preorder (p @ ''/'' @ k) t)"
      by simp
  qed
  moreover have "p \<notin> set (concat (map (\<lambda>(k, t). preorder (p @ ''/'' @ k) t) kts))"
    using preorder_child_longer by fastforce
  ultimately show ?case by simp
qed

lemma preorder_reachable:
  "tree_of es el t \<Longrightarrow> q \<in> set (preorder p t) \<Longrightarrow> reachable es el p q"
proof (induction p t arbitrary: el rule: preorder.induct)
  case (1 p kts)
  show ?case
  proof (cases "q = p")
    case True
    then show ?thesis by (simp add: reachable.here)
  next
    case False
    with "1.prems"(2) obtain k t' where kt: "(k, t') \<in> set kts"
      and q: "q \<in> set (preorder (p @ ''/'' @ k) t')"
      by auto
    from "1.prems"(1) have rel:
      "list_all2 (\<lambda>c kt. fst kt = key c
          \<and> (\<exists>el'. es (child_urn c) = Some el' \<and> tree_of es el' (snd kt))) (childrenOf el) kts"
      by (auto elim: tree_of.cases)
    from rel kt obtain c el' where c: "c \<in> set (childrenOf el)" and "k = key c"
      and el': "es (child_urn c) = Some el'" and t': "tree_of es el' t'"
      by (auto simp: list_all2_conv_all_nth in_set_conv_nth) (metis fst_conv snd_conv)
    with "1.IH" [OF kt refl t' q] show ?thesis
      by (auto intro: reachable.step)
  qed
qed

lemma reachable_preorder:
  "reachable es el p q \<Longrightarrow> tree_of es el t \<Longrightarrow> q \<in> set (preorder p t)"
proof (induction arbitrary: t rule: reachable.induct)
  case (here el p)
  then show ?case by (cases t) simp
next
  case (step c el el' p q)
  obtain kts where t: "t = ENode kts" by (cases t)
  from step.prems t have rel:
    "list_all2 (\<lambda>c kt. fst kt = key c
        \<and> (\<exists>el'. es (child_urn c) = Some el' \<and> tree_of es el' (snd kt))) (childrenOf el) kts"
    by (auto elim: tree_of.cases)
  from rel step.hyps(1,2) obtain t' where "(key c, t') \<in> set kts" and "tree_of es el' t'"
    by (auto simp: list_all2_conv_all_nth in_set_conv_nth) (metis nth_mem option.inject prod.collapse)
  with step.IH [of t'] show ?case using t by force
qed



text \<open>
  Claim C6. For an element tree (every child reference resolves, no reference path is
  cyclic, sibling keys are distinct and contain no \<open>/\<close>) the full-model path enumeration
  returns, given fuel for the nodes of the tree, a list that starts with the root path,
  is the pre-order of the tree, has no duplicates, and contains a path exactly when the
  path is reachable from the root by following child keys.
\<close>

theorem getAllPaths_enumerates:
  assumes "getRootUrn h = Inr u" and "elements_get h u = Inr es"
    and "es u = Some el" and "tree_of es el t" and "wf_keys t"
    and "nodes t \<le> fuel"
  shows "\<exists>paths.
           getAllPaths fuel h = Some (Inr paths)
           \<and> paths = preorder ''root'' t
           \<and> hd paths = ''root''
           \<and> distinct paths
           \<and> (\<forall>p. p \<in> set paths \<longleftrightarrow> reachable es el ''root'' p)"
proof -
  have loc: "\<And>path. followKeys es path (es u) (drop 1 (split_sep CHR ''/'' ''root''))
      = Inr (Some el)"
    using assms(3) by simp
  have run: "getAllPaths fuel h = Some (Inr (preorder ''root'' t))"
    using findAllPaths_tree [OF assms(4,5) loc assms(6)] assms(1,2)
    by (simp add: getAllPaths_def)
  have "hd (preorder ''root'' t) = ''root''"
    by (cases t) simp
  moreover have "distinct (preorder ''root'' t)"
    using assms(5) by (rule distinct_preorder)
  moreover have "\<forall>p. p \<in> set (preorder ''root'' t) \<longleftrightarrow> reachable es el ''root'' p"
    using preorder_reachable [OF assms(4)] reachable_preorder [OF _ assms(4)] by blast
  ultimately show ?thesis using run by blast
qed

theorem getAllPaths_enumerates_witness:
  "getRootUrn sampleHost = Inr ''r''
   \<and> elements_get sampleHost ''r'' = Inr sampleElements
   \<and> sampleElements ''r'' = Some sampleRoot
   \<and> tree_of sampleElements sampleRoot sampleTree
   \<and> wf_keys sampleTree
   \<and> nodes sampleTree \<le> 6
   \<and> getAllPaths 6 sampleHost
       = Some (Inr [''root'', ''root/a'', ''root/a/c'', ''root/a/d'', ''root/b'', ''root/b/c''])
   \<and> reachable sampleElements sampleRoot ''root'' ''root/b/c''
   \<and> \<not> reachable sampleElements sampleRoot ''root'' ''root/c''"
proof -
  have h1: "getRootUrn sampleHost = Inr ''r''" by (simp add: sampleHost_def)
  have h2: "elements_get sampleHost ''r'' = Inr sampleElements" by (simp add: sampleHost_def)
  have h3: "sampleElements ''r'' = Some sampleRoot" by (simp add: sampleElements_def)
  have h5: "wf_keys sampleTree" by (simp add: sampleTree_def)
  have h6: "nodes sampleTree \<le> 6" by (simp add: sample_nodes)
  have p: "preorder ''root'' sampleTree
      = [''root'', ''root/a'', ''root/a/c'', ''root/a/d'', ''root/b'', ''root/b/c'']"
    by (simp add: sampleTree_def)
  from getAllPaths_enumerates [OF h1 h2 h3 sample_tree_of h5 h6] p
  have run: "getAllPaths 6 sampleHost
       = Some (Inr [''root'', ''root/a'', ''root/a/c'', ''root/a/d'', ''root/b'', ''root/b/c''])"
    and mem: "\<forall>q. q \<in> set [''root'', ''root/a'', ''root/a/c'', ''root/a/d'', ''root/b'', ''root/b/c'']
          \<longleftrightarrow> reachable sampleElements sampleRoot ''root'' q"
    by auto
  have r1: "reachable sampleElements sampleRoot ''root'' ''root/b/c''"
    using mem [THEN spec, of "''root/b/c''"] by simp
  have r2: "\<not> reachable sampleElements sampleRoot ''root'' ''root/c''"
    using mem [THEN spec, of "''root/c''"] by simp
  show ?thesis using h1 h2 h3 sample_tree_of h5 h6 run r1 r2 by blast
qed


section \<open>The volume collection loader always returns a collection\<close>

lemma tree_of_children:
  assumes "tree_of es el (ENode kts)"
  shows "list_all2 (\<lambda>c kt. fst kt = key c
        \<and> (\<exists>el'. es (child_urn c) = Some el' \<and> tree_of es el' (snd kt))) (childrenOf el) kts"
  using assms by (auto elim: tree_of.cases)

lemma subTreeLoop_total:
  assumes "list_all2 (\<lambda>entry t. \<exists>el. snd entry = Some el \<and> tree_of es el t) stack ts"
    and "sum_list (map nodes ts) \<le> fuel"
  shows "\<exists>r. subTreeLoop fuel h tc es stack collections = Some r"
  using assms
proof (induction fuel arbitrary: stack ts collections)
  case 0
  have "ts = []"
  proof (cases ts)
    case (Cons t ts')
    then show ?thesis using "0.prems"(2) by (cases t) simp
  qed simp
  with "0.prems"(1) show ?case by simp
next
  case (Suc fuel)
  show ?case
  proof (cases stack)
    case Nil
    then show ?thesis by simp
  next
    case (Cons entry rest)
    obtain path e where entry: "entry = (path, e)" by (cases entry)
    from Suc.prems(1) Cons obtain t ts' where ts: "ts = t # ts'"
      and rest: "list_all2 (\<lambda>entry t. \<exists>el. snd entry = Some el \<and> tree_of es el t) rest ts'"
      and top: "\<exists>el. snd entry = Some el \<and> tree_of es el t"
      by (auto simp: list_all2_Cons1)
    from top entry obtain el where e: "e = Some el" and t: "tree_of es el t" by auto
    obtain kts where kts: "t = ENode kts" by (cases t)
    let ?stack' = "rev (map (\<lambda>child. (path @ ''/'' @ key child, es (child_urn child)))
                              (childrenOf el)) @ rest"
    let ?ts' = "rev (map snd kts) @ ts'"
    have "list_all2 (\<lambda>entry t. \<exists>el. snd entry = Some el \<and> tree_of es el t)
            (map (\<lambda>child. (path @ ''/'' @ key child, es (child_urn child))) (childrenOf el))
            (map snd kts)"
      using tree_of_children [OF t [unfolded kts]]
      by (auto simp: list_all2_map1 list_all2_map2 elim!: list_all2_mono)
    then have rel': "list_all2 (\<lambda>entry t. \<exists>el. snd entry = Some el \<and> tree_of es el t) ?stack' ?ts'"
      using rest by (auto intro: list_all2_appendI)
    have "sum_list (map nodes (map snd kts)) = sum_list (map (\<lambda>(k, t). nodes t) kts)"
      by (induction kts) auto
    then have fuel': "sum_list (map nodes ?ts') \<le> fuel"
      using Suc.prems(2) ts kts by (simp add: rev_map [symmetric])
    from Suc.IH [OF rel' fuel'] have IH: "\<exists>r. subTreeLoop fuel h tc es ?stack' cs = Some r" for cs
      by blast
    show ?thesis
      using IH unfolding Cons entry e
      by (auto simp: Let_def split: sum.splits option.splits)
  qed
qed

lemma getVolume25DForSubTree_shape:
  "getVolume25DForSubTree fuel h tc path \<noteq> Some (Inr None)"
  by (auto simp: getVolume25DForSubTree_def split: sum.splits option.splits prod.splits)


text \<open>
  Claim C8, as amended. For a requested path whose subtree is an element tree, the loader
  finishes, given fuel for the nodes of the tree; it never returns "no collection". If
  the walk throws, the loader throws; otherwise it returns a feature collection holding
  the concatenated features of the collections the walk pushed, and when every pushed
  collection is empty (no visited node yields a feature after resolution and filtering)
  the result is a feature collection with an empty feature list.
\<close>

theorem getVolume25DForSubTree_empty_collection:
  assumes "getByPath h path = Inr (Some el, es)" and "tree_of es el t" and "nodes t \<le> fuel"
  shows "getVolume25DForSubTree fuel h tc path \<noteq> Some (Inr None)
         \<and> (\<exists>r. subTreeLoop fuel h tc es [(path, Some el)] [] = Some r
              \<and> (case r of
                    Inl e \<Rightarrow> getVolume25DForSubTree fuel h tc path = Some (Inl e)
                  | Inr collections \<Rightarrow>
                      getVolume25DForSubTree fuel h tc path
                        = Some (Inr (Some \<lparr>fc_type = ''FeatureCollection'',
                                          features = concat (map features collections)\<rparr>))
                      \<and> ((\<forall>fc \<in> set collections. features fc = [])
                          \<longrightarrow> getVolume25DForSubTree fuel h tc path
                                = Some (Inr (Some \<lparr>fc_type = ''FeatureCollection'',
                                                  features = []\<rparr>)))))"
proof -
  have "list_all2 (\<lambda>entry t. \<exists>el. snd entry = Some el \<and> tree_of es el t) [(path, Some el)] [t]"
    using assms(2) by simp
  from subTreeLoop_total [OF this, of fuel h tc "[]"] assms(3)
  obtain r where r: "subTreeLoop fuel h tc es [(path, Some el)] [] = Some r" by auto
  have "case r of
          Inl e \<Rightarrow> getVolume25DForSubTree fuel h tc path = Some (Inl e)
        | Inr collections \<Rightarrow>
            getVolume25DForSubTree fuel h tc path
              = Some (Inr (Some \<lparr>fc_type = ''FeatureCollection'',
                                features = concat (map features collections)\<rparr>))
            \<and> ((\<forall>fc \<in> set collections. features fc = [])
                \<longrightarrow> getVolume25DForSubTree fuel h tc path
                      = Some (Inr (Some \<lparr>fc_type = ''FeatureCollection'',
                                        features = []\<rparr>)))"
  proof (cases r)
    case (Inl e)
    with r assms(1) show ?thesis by (simp add: getVolume25DForSubTree_def)
  next
    case (Inr collections)
    have "(\<forall>fc \<in> set collections. features fc = []) \<Longrightarrow> concat (map features collections) = []"
      by simp
    with Inr r assms(1) show ?thesis by (simp add: getVolume25DForSubTree_def)
  qed
  with r getVolume25DForSubTree_shape [of fuel h tc path] show ?thesis by blast
qed

theorem getVolume25DForSubTree_empty_collection_witness:
  "getByPath sampleHost ''root'' = Inr (Some sampleRoot, sampleElements)
   \<and> tree_of sampleElements sampleRoot sampleTree
   \<and> nodes sampleTree \<le> 6
   \<and> subTreeLoop 6 sampleHost (\<lambda>t r. r) sampleElements [(''root'', Some sampleRoot)] []
       = Some (Inr [\<lparr>fc_type = ''FeatureCollection'', features = []\<rparr>])
   \<and> getVolume25DForSubTree 6 sampleHost (\<lambda>t r. r) ''root''
       = Some (Inr (Some \<lparr>fc_type = ''FeatureCollection'', features = []\<rparr>))"
proof -
  have h3: "nodes sampleTree \<le> 6" by (simp add: sample_nodes)
  from getVolume25DForSubTree_empty_collection
    [OF sample_getByPath sample_tree_of h3, of "\<lambda>t r. r"] sample_loop
  have "getVolume25DForSubTree 6 sampleHost (\<lambda>t r. r) ''root''
       = Some (Inr (Some \<lparr>fc_type = ''FeatureCollection'', features = []\<rparr>))"
    by auto
  with sample_getByPath sample_tree_of h3 sample_loop show ?thesis by blast
qed


text \<open>
  Claim C8 as stated fails on the sample model: no visited node yields a feature, and the
  loader returns a feature collection with no features, not "no collection".
\<close>

theorem getVolume25DForSubTree_no_collection_counterexample:
  "subTreeLoop 6 sampleHost (\<lambda>t r. r) sampleElements [(''root'', Some sampleRoot)] []
     = Some (Inr [\<lparr>fc_type = ''FeatureCollection'', features = []\<rparr>])
   \<and> getVolume25DForSubTree 6 sampleHost (\<lambda>t r. r) ''root''
     = Some (Inr (Some \<lparr>fc_type = ''FeatureCollection'', features = []\<rparr>))
   \<and> getVolume25DForSubTree 6 sampleHost (\<lambda>t r. r) ''root'' \<noteq> Some (Inr None)"
  using sample_loop by (simp add: getVolume25DForSubTree_def sampleHost_def)

section \<open>The asynchronous run\<close>

lemma pollLoop_canned: "pollLoop (Suc fuel) tr = (Some (Inr (job_result cannedJob)), tr)"
  by (simp add: cannedJob_def)

lemma snd_pollLoop: "snd (pollLoop fuel tr) = tr"
  by (cases fuel) (simp_all add: pollLoop_canned del: pollLoop.simps(2))

lemma canned_differs: "job_result cannedJob \<noteq> scenarioResult"
  by (simp add: cannedJob_def scenarioResult_def)

lemma sample_auth_fetch:
  "\<not> hasHeader (rq_headers i) ''Authorization'' \<Longrightarrow>
   auth_fetch sampleDynamo net input (Some i) tr
     = (net tr input (Some (i\<lparr>rq_headers := setHeader (rq_headers i) ''Authorization'' ''Bearer t''\<rparr>)),
        tr @ [Fetch input (Some (i\<lparr>rq_headers := setHeader (rq_headers i) ''Authorization'' ''Bearer t''\<rparr>))])"
  by (simp add: auth_fetch_def sampleDynamo_def fetch_def)

lemma scenario_create:
  "scenarioNet u tr ''https://daas.example/v1/graph/job/create'' init
     = Inr \<lparr>status = 200, statusText = ''OK'',
             json = Some (JObj [(''jobId'', JStr ''j1''), (''uploadUrl'', JStr ''https://x'')])\<rparr>"
  by (simp add: scenarioNet_def)

lemma scenario_upload:
  "scenarioNet u tr ''https://x'' init = Inr \<lparr>status = u, statusText = '''', json = None\<rparr>"
  by (simp add: scenarioNet_def)

lemma scenario_trigger:
  "scenarioNet u tr ''https://daas.example/v1/graph/job/j1/run?passtoken=1'' init
     = Inr \<lparr>status = 200, statusText = ''OK'', json = None\<rparr>"
  by (simp add: scenarioNet_def)

lemma scenario_run:
  "runAsync fmt sampleDynamo (scenarioNet u) target inputs (Suc fuel) []
     = (Some (Inr (job_result cannedJob)),
        [Fetch ''https://daas.example/v1/graph/job/create''
           (Some \<lparr>rq_method = ''GET'', rq_headers = [(''Authorization'', ''Bearer t'')],
                  rq_body = None\<rparr>),
         Fetch ''https://x''
           (Some \<lparr>rq_method = ''PUT'', rq_headers = [],
                  rq_body = Some (RunBody target inputs)\<rparr>),
         Fetch ''https://daas.example/v1/graph/job/j1/run?passtoken=1''
           (Some \<lparr>rq_method = ''POST'', rq_headers = [(''Authorization'', ''Bearer t'')],
                  rq_body = None\<rparr>)])"
proof -
  have u: "url sampleDynamo = ''https://daas.example''" by (simp add: sampleDynamo_def)
  have h: "\<not> hasHeader [] ''Authorization''" by (simp add: hasHeader_def)
  have s: "setHeader [] ''Authorization'' ''Bearer t'' = [(''Authorization'', ''Bearer t'')]"
    by (simp add: setHeader_def)
  show ?thesis
    unfolding runAsync_def u
    by (simp add: sample_auth_fetch h s scenario_create scenario_upload scenario_trigger
        fetch_def pollLoop_canned del: pollLoop.simps)
qed

text \<open>
  Claim C3 describes a run that polls the results endpoint three times and resolves with
  the result embedded in the third answer. On exactly that scenario the code sends three
  requests (create, upload, trigger), none to the results endpoint, does not wait, and
  resolves with the result of the object literal in its loop, which is not the result the
  scenario's third poll would have carried.
\<close>

theorem runAsync_returns_canned_result:
  "runAsync fmt sampleDynamo (scenarioNet 200) target inputs (Suc fuel) []
     = (Some (Inr (job_result cannedJob)),
        [Fetch ''https://daas.example/v1/graph/job/create''
           (Some \<lparr>rq_method = ''GET'', rq_headers = [(''Authorization'', ''Bearer t'')],
                  rq_body = None\<rparr>),
         Fetch ''https://x''
           (Some \<lparr>rq_method = ''PUT'', rq_headers = [],
                  rq_body = Some (RunBody target inputs)\<rparr>),
         Fetch ''https://daas.example/v1/graph/job/j1/run?passtoken=1''
           (Some \<lparr>rq_method = ''POST'', rq_headers = [(''Authorization'', ''Bearer t'')],
                  rq_body = None\<rparr>)])
   \<and> job_result cannedJob \<noteq> scenarioResult
   \<and> filter (\<lambda>ev. fetchedUrl ev = Some ''https://daas.example/v1/graph/results/j1'')
        (snd (runAsync fmt sampleDynamo (scenarioNet 200) target inputs (Suc fuel) [])) = []
   \<and> scenarioNet 200
        [Fetch ''https://daas.example/v1/graph/results/j1'' None,
         Fetch ''https://daas.example/v1/graph/results/j1'' None]
        ''https://daas.example/v1/graph/results/j1'' None
      = Inr \<lparr>status = 200, statusText = ''OK'',
              json = Some (JObj [(''status'', JStr ''COMPLETE''), (''result'', scenarioResult)])\<rparr>"
  by (simp add: scenario_run canned_differs fetchedUrl_def) (simp add: scenarioNet_def fetchedUrl_def)

lemma getHeader_setHeader: "getHeader (setHeader hs name v) name = Some v"
proof -
  have "find (\<lambda>h. sameHeaderName (fst h) name) (filter (\<lambda>h. \<not> sameHeaderName (fst h) name) hs @ [(name, v)])
          = Some (name, v)"
    by (induction hs) (auto simp: sameHeaderName_def)
  then show ?thesis by (simp add: getHeader_def setHeader_def)
qed

lemma auth_fetch_configured:
  assumes "authProvider d = Some (Inr a)" and "\<not> hasHeader (rq_headers i) ''Authorization''"
  shows "auth_fetch d net input (Some i) tr
     = (net tr input (Some (i\<lparr>rq_headers := setHeader (rq_headers i) ''Authorization'' a\<rparr>)),
        tr @ [Fetch input (Some (i\<lparr>rq_headers := setHeader (rq_headers i) ''Authorization'' a\<rparr>))])"
  using assms by (simp add: auth_fetch_def fetch_def)

lemma auth_fetch_no_init:
  "auth_fetch d net input None tr = (net tr input None, tr @ [Fetch input None])"
  by (simp add: auth_fetch_def fetch_def split: option.splits)

lemma snd_responseJson: "snd (responseJson r) = snd r"
  by (auto simp: responseJson_def split: prod.splits sum.splits option.splits)

lemma no_auth_nil: "\<not> hasHeader [] name"
  by (simp add: hasHeader_def)

lemma carries_set:
  "carriesAuthorization a (Fetch input
     (Some \<lparr>rq_method = m, rq_headers = setHeader hs ''Authorization'' a, rq_body = b\<rparr>))"
  by (simp add: carriesAuthorization_def getHeader_setHeader)

lemma runAsync_trace:
  assumes "authProvider d = Some (Inr a)"
  shows "\<forall>ev \<in> set (snd (runAsync fmt d net target inputs fuel [])).
           carriesAuthorization a ev
           \<or> (\<exists>input b. ev = Fetch input (Some \<lparr>rq_method = ''PUT'', rq_headers = [], rq_body = b\<rparr>))"
  unfolding runAsync_def
  by (auto simp: auth_fetch_configured [OF assms] no_auth_nil fetch_def Let_def snd_pollLoop
        carries_set
      split: sum.splits option.splits jsval.splits prod.splits)

lemma upload_override_run:
  "runAsync fmt sampleDynamo (withUploadResponse (scenarioNet u) r) target inputs (Suc fuel) []
     = (Some (Inr (job_result cannedJob)),
        [Fetch ''https://daas.example/v1/graph/job/create''
           (Some \<lparr>rq_method = ''GET'', rq_headers = [(''Authorization'', ''Bearer t'')],
                  rq_body = None\<rparr>),
         Fetch ''https://x''
           (Some \<lparr>rq_method = ''PUT'', rq_headers = [],
                  rq_body = Some (RunBody target inputs)\<rparr>),
         Fetch ''https://daas.example/v1/graph/job/j1/run?passtoken=1''
           (Some \<lparr>rq_method = ''POST'', rq_headers = [(''Authorization'', ''Bearer t'')],
                  rq_body = None\<rparr>)])"
proof -
  have u: "url sampleDynamo = ''https://daas.example''" by (simp add: sampleDynamo_def)
  have h: "\<not> hasHeader [] ''Authorization''" by (simp add: hasHeader_def)
  have s: "setHeader [] ''Authorization'' ''Bearer t'' = [(''Authorization'', ''Bearer t'')]"
    by (simp add: setHeader_def)
  show ?thesis
    unfolding runAsync_def u
    by (simp add: sample_auth_fetch h s scenario_create scenario_upload scenario_trigger
        fetch_def pollLoop_canned withUploadResponse_def del: pollLoop.simps)
qed

lemma auth_fetch_override:
  "rq_method i \<noteq> ''PUT'' \<Longrightarrow>
   auth_fetch d (withUploadResponse net r) input (Some i) tr = auth_fetch d net input (Some i) tr"
  by (simp add: auth_fetch_def fetch_def withUploadResponse_def split: option.splits sum.splits)

lemma fetch_override_put:
  "fetch (withUploadResponse net r) input
     (Some \<lparr>rq_method = ''PUT'', rq_headers = hs, rq_body = b\<rparr>) tr
   = (Inr r, tr @ [Fetch input (Some \<lparr>rq_method = ''PUT'', rq_headers = hs, rq_body = b\<rparr>)])"
  by (simp add: fetch_def withUploadResponse_def)

lemma runAsync_override_eq:
  "runAsync fmt d (withUploadResponse net r) target inputs fuel tr
     = runAsync fmt d (withUploadResponse net r') target inputs fuel tr"
  unfolding runAsync_def
  by (auto simp: auth_fetch_override fetch_override_put Let_def
      split: prod.splits sum.splits option.splits)

lemma auth_fetch_sent:
  assumes "\<And>e. authProvider d \<noteq> Some (Inl e)"
  shows "\<exists>i. rq_method i = m
           \<and> auth_fetch d net input (Some \<lparr>rq_method = m, rq_headers = [], rq_body = b\<rparr>) tr
               = (net tr input (Some i), tr @ [Fetch input (Some i)])"
proof (cases "authProvider d")
  case None
  then show ?thesis by (simp add: auth_fetch_def fetch_def)
next
  case (Some provider)
  with assms obtain a where "provider = Inr a" by (cases provider) auto
  with Some have "auth_fetch d net input (Some \<lparr>rq_method = m, rq_headers = [], rq_body = b\<rparr>) tr
      = (net tr input (Some \<lparr>rq_method = m, rq_headers = setHeader [] ''Authorization'' a,
                              rq_body = b\<rparr>),
         tr @ [Fetch input (Some \<lparr>rq_method = m, rq_headers = setHeader [] ''Authorization'' a,
                                   rq_body = b\<rparr>)])"
    by (simp add: auth_fetch_def fetch_def no_auth_nil)
  then show ?thesis
    by (intro exI [of _ "\<lparr>rq_method = m, rq_headers = setHeader [] ''Authorization'' a,
                          rq_body = b\<rparr>"]) simp
qed

lemma runAsync_override_trigger:
  assumes put: "Fetch input (Some \<lparr>rq_method = ''PUT'', rq_headers = [], rq_body = b\<rparr>)
          \<in> set (snd (runAsync fmt d (withUploadResponse net r) target inputs fuel []))"
  shows "\<exists>input i. last (snd (runAsync fmt d (withUploadResponse net r) target inputs fuel []))
                = Fetch input (Some i) \<and> rq_method i = ''POST''"
proof -
  let ?N = "withUploadResponse net r"
  let ?T = "snd (runAsync fmt d ?N target inputs fuel [])"
  have provider: "authProvider d \<noteq> Some (Inl e)" for e
  proof
    assume "authProvider d = Some (Inl e)"
    then have "?T = []"
      by (simp add: runAsync_def auth_fetch_def no_auth_nil)
    with put show False by simp
  qed
  from auth_fetch_sent [OF provider] obtain ci where ci: "rq_method ci = ''GET''"
    and create: "auth_fetch d ?N (url d @ ''/v1/graph/job/create'')
        (Some \<lparr>rq_method = ''GET'', rq_headers = [], rq_body = None\<rparr>) []
      = (?N [] (url d @ ''/v1/graph/job/create'') (Some ci),
         [] @ [Fetch (url d @ ''/v1/graph/job/create'') (Some ci)])"
    by blast
  let ?tr1 = "[Fetch (url d @ ''/v1/graph/job/create'') (Some ci)]"
  have notput: "Fetch input (Some \<lparr>rq_method = ''PUT'', rq_headers = [], rq_body = b\<rparr>) \<notin> set ?tr1"
    using ci by auto
  show ?thesis
  proof (cases "?N [] (url d @ ''/v1/graph/job/create'') (Some ci)")
    case (Inl e)
    with create have "?T = ?tr1" by (simp add: runAsync_def)
    with put notput show ?thesis by simp
  next
    case (Inr createJob)
    show ?thesis
    proof (cases "status createJob = 200 \<and> (\<exists>ticket. json createJob = Some ticket \<and> ticket \<noteq> JNull)")
      case False
      with create Inr have "?T = ?tr1"
        by (auto simp: runAsync_def split: option.splits)
      with put notput show ?thesis by simp
    next
      case True
      then obtain ticket where ok: "status createJob = 200" "json createJob = Some ticket"
        "ticket \<noteq> JNull" by blast
      let ?pu = "toString fmt (getProp ticket ''uploadUrl'')"
      let ?pi = "\<lparr>rq_method = ''PUT'', rq_headers = [], rq_body = Some (RunBody target inputs)\<rparr>"
      let ?tr2 = "?tr1 @ [Fetch ?pu (Some ?pi)]"
      let ?tu = "url d @ ''/v1/graph/job/'' @ toString fmt (getProp ticket ''jobId'')
                   @ ''/run?passtoken=1''"
      from auth_fetch_sent [OF provider] obtain ti where ti: "rq_method ti = ''POST''"
        and trigger: "auth_fetch d ?N ?tu
            (Some \<lparr>rq_method = ''POST'', rq_headers = [], rq_body = None\<rparr>) ?tr2
          = (?N ?tr2 ?tu (Some ti), ?tr2 @ [Fetch ?tu (Some ti)])"
        by blast
      have "?T = ?tr2 @ [Fetch ?tu (Some ti)]"
        using create Inr ok trigger
        by (simp add: runAsync_def fetch_override_put Let_def snd_pollLoop
            split: sum.splits)
      with ti show ?thesis by simp
    qed
  qed
qed

text \<open>
  Claim C10. The response of the payload upload has no effect on \<open>runAsync\<close>: with the
  upload answered by \<open>r\<close> or by any other response \<open>r'\<close>, of whatever status, the
  outcome and the requests sent are the same; and once the upload request has been sent,
  the run goes on to the trigger request, which is the last one it sends.
\<close>

theorem runAsync_ignores_upload_response:
  "runAsync fmt d (withUploadResponse net r) target inputs fuel tr
     = runAsync fmt d (withUploadResponse net r') target inputs fuel tr
   \<and> ((\<exists>input b. Fetch input (Some \<lparr>rq_method = ''PUT'', rq_headers = [], rq_body = b\<rparr>)
          \<in> set (snd (runAsync fmt d (withUploadResponse net r) target inputs fuel [])))
       \<longrightarrow> (\<exists>input i. last (snd (runAsync fmt d (withUploadResponse net r) target inputs fuel []))
                = Fetch input (Some i) \<and> rq_method i = ''POST''))"
  using runAsync_override_eq runAsync_override_trigger by blast

theorem runAsync_ignores_upload_response_witness:
  "Fetch ''https://x'' (Some \<lparr>rq_method = ''PUT'', rq_headers = [],
        rq_body = Some (RunBody CurrentGraphTarget [])\<rparr>)
     \<in> set (snd (runAsync (\<lambda>x. []) sampleDynamo
          (withUploadResponse (scenarioNet 200)
             \<lparr>status = 503, statusText = ''Service Unavailable'', json = None\<rparr>)
          CurrentGraphTarget [] 1 []))
   \<and> (\<exists>input i. last (snd (runAsync (\<lambda>x. []) sampleDynamo
          (withUploadResponse (scenarioNet 200)
             \<lparr>status = 503, statusText = ''Service Unavailable'', json = None\<rparr>)
          CurrentGraphTarget [] 1 [])) = Fetch input (Some i) \<and> rq_method i = ''POST'')
   \<and> fst (runAsync (\<lambda>x. []) sampleDynamo
          (withUploadResponse (scenarioNet 200)
             \<lparr>status = 503, statusText = ''Service Unavailable'', json = None\<rparr>)
          CurrentGraphTarget [] 1 []) = Some (Inr (job_result cannedJob))
   \<and> fst (runAsync (\<lambda>x. []) sampleDynamo
          (withUploadResponse (scenarioNet 200)
             \<lparr>status = 200, statusText = ''OK'', json = None\<rparr>)
          CurrentGraphTarget [] 1 []) = Some (Inr (job_result cannedJob))"
proof -
  let ?r = "\<lparr>status = 503, statusText = ''Service Unavailable'', json = None\<rparr>"
  let ?r' = "\<lparr>status = 200, statusText = ''OK'', json = None\<rparr>"
  let ?run = "\<lambda>r. runAsync (\<lambda>x. []) sampleDynamo (withUploadResponse (scenarioNet 200) r)
                 CurrentGraphTarget [] 1 []"
  have put: "Fetch ''https://x'' (Some \<lparr>rq_method = ''PUT'', rq_headers = [],
        rq_body = Some (RunBody CurrentGraphTarget [])\<rparr>) \<in> set (snd (?run ?r))"
    using upload_override_run [of "\<lambda>x. []" 200 ?r CurrentGraphTarget "[]" 0] by simp
  have ok: "fst (?run ?r') = Some (Inr (job_result cannedJob))"
    using upload_override_run [of "\<lambda>x. []" 200 ?r' CurrentGraphTarget "[]" 0] by simp
  from runAsync_ignores_upload_response
    [of "\<lambda>x. []" sampleDynamo "scenarioNet 200" ?r CurrentGraphTarget "[]" 1 "[]" ?r']
  have eq: "?run ?r = ?run ?r'"
    and post: "(\<exists>input b. Fetch input (Some \<lparr>rq_method = ''PUT'', rq_headers = [], rq_body = b\<rparr>)
          \<in> set (snd (?run ?r)))
       \<longrightarrow> (\<exists>input i. last (snd (?run ?r)) = Fetch input (Some i) \<and> rq_method i = ''POST'')"
    by blast+
  from post put have "\<exists>input i. last (snd (?run ?r)) = Fetch input (Some i) \<and> rq_method i = ''POST''"
    by blast
  with put ok eq show ?thesis by simp
qed

section \<open>The Authorization header\<close>

lemma list_all_snd_auth:
  assumes "authProvider d = Some (Inr a)"
  shows "list_all (carriesAuthorization a)
           (snd (auth_fetch d net input (Some \<lparr>rq_method = m, rq_headers = [], rq_body = b\<rparr>) []))"
  by (simp add: auth_fetch_configured [OF assms] no_auth_nil carries_set)

lemma snd_info:
  "snd (info fmt d net target tr)
     = snd (auth_fetch d net (url d @ ''/v1/graph/info'')
         (Some \<lparr>rq_method = ''POST'', rq_headers = [], rq_body = Some (InfoBody target)\<rparr>) tr)"
  by (auto simp: info_def Let_def split: prod.splits sum.splits option.splits)

text \<open>
  Claim C9, as amended. With a token provider configured, a request sent through
  \<open>_fetch\<close> with an options object gets the provider's \<open>Authorization\<close> header when it
  carries none, and is sent unchanged when it carries one; that covers the requests of
  \<open>info\<close>, \<open>folder\<close>, \<open>trust\<close>, the synchronous \<open>run\<close>, and the create and trigger
  requests of \<open>runAsync\<close>. The upload \<open>PUT\<close> of \<open>runAsync\<close> is sent with the plain
  \<open>fetch\<close> and has no headers, and the request of \<open>serverInfo\<close> is sent without an
  options object; neither carries the header.
\<close>

theorem authorization_header_injected:
  assumes "authProvider d = Some (Inr a)"
  shows "(\<not> hasHeader (rq_headers i) ''Authorization'' \<longrightarrow>
            snd (auth_fetch d net input (Some i) tr)
              = tr @ [Fetch input
                        (Some (i\<lparr>rq_headers := setHeader (rq_headers i) ''Authorization'' a\<rparr>))]
            \<and> getHeader (setHeader (rq_headers i) ''Authorization'' a) ''Authorization'' = Some a)
       \<and> (hasHeader (rq_headers i) ''Authorization'' \<longrightarrow>
            snd (auth_fetch d net input (Some i) tr) = tr @ [Fetch input (Some i)])
       \<and> snd (auth_fetch d net input None tr) = tr @ [Fetch input None]
       \<and> list_all (carriesAuthorization a) (snd (info fmt d net target []))
       \<and> list_all (carriesAuthorization a) (snd (folder d net path []))
       \<and> list_all (carriesAuthorization a) (snd (trust d net path []))
       \<and> list_all (carriesAuthorization a) (snd (run True fmt d net target inputs fuel []))
       \<and> (\<forall>ev \<in> set (snd (runAsync fmt d net target inputs fuel [])).
             carriesAuthorization a ev
             \<or> (\<exists>input b. ev = Fetch input
                   (Some \<lparr>rq_method = ''PUT'', rq_headers = [], rq_body = b\<rparr>)))
       \<and> \<not> carriesAuthorization a
             (Fetch input (Some \<lparr>rq_method = ''PUT'', rq_headers = [], rq_body = b\<rparr>))
       \<and> snd (serverInfo d net []) = [Fetch (url d @ ''/v1/server-info'') None]
       \<and> \<not> carriesAuthorization a (Fetch (url d @ ''/v1/server-info'') None)"
proof -
  have 1: "\<not> hasHeader (rq_headers i) ''Authorization'' \<longrightarrow>
            snd (auth_fetch d net input (Some i) tr)
              = tr @ [Fetch input
                        (Some (i\<lparr>rq_headers := setHeader (rq_headers i) ''Authorization'' a\<rparr>))]
            \<and> getHeader (setHeader (rq_headers i) ''Authorization'' a) ''Authorization'' = Some a"
    by (simp add: auth_fetch_configured [OF assms] getHeader_setHeader)
  have 2: "hasHeader (rq_headers i) ''Authorization'' \<longrightarrow>
            snd (auth_fetch d net input (Some i) tr) = tr @ [Fetch input (Some i)]"
    using assms by (simp add: auth_fetch_def fetch_def)
  have 3: "snd (auth_fetch d net input None tr) = tr @ [Fetch input None]"
    by (simp add: auth_fetch_no_init)
  have 4: "list_all (carriesAuthorization a) (snd (info fmt d net target []))"
    by (simp only: snd_info list_all_snd_auth [OF assms])
  have 5: "list_all (carriesAuthorization a) (snd (folder d net path []))"
    by (simp only: folder_def snd_responseJson list_all_snd_auth [OF assms])
  have 6: "list_all (carriesAuthorization a) (snd (trust d net path []))"
    by (simp only: trust_def snd_responseJson list_all_snd_auth [OF assms])
  have "snd (run True fmt d net target inputs fuel [])
      = snd (responseJson (auth_fetch d net (url d @ ''/v1/graph/run'')
                (Some \<lparr>rq_method = ''POST'', rq_headers = [],
                       rq_body = Some (RunBody target inputs)\<rparr>) []))"
    by (auto simp: run_def split: prod.splits)
  then have 7: "list_all (carriesAuthorization a) (snd (run True fmt d net target inputs fuel []))"
    by (simp only: snd_responseJson list_all_snd_auth [OF assms])
  have 8: "\<not> carriesAuthorization a
             (Fetch input (Some \<lparr>rq_method = ''PUT'', rq_headers = [], rq_body = b\<rparr>))"
    by (simp add: carriesAuthorization_def getHeader_def)
  have 9: "snd (serverInfo d net []) = [Fetch (url d @ ''/v1/server-info'') None]"
    by (simp add: serverInfo_def snd_responseJson auth_fetch_no_init)
  have 10: "\<not> carriesAuthorization a (Fetch (url d @ ''/v1/server-info'') None)"
    by (simp add: carriesAuthorization_def)
  from 1 2 3 4 5 6 7 runAsync_trace [OF assms] 8 9 10 show ?thesis by blast
qed


theorem authorization_header_injected_witness:
  "authProvider sampleDynamo = Some (Inr ''Bearer t'')
   \<and> \<not> hasHeader (rq_headers \<lparr>rq_method = ''POST'', rq_headers = [(''Accept'', ''*/*'')],
                                rq_body = None\<rparr>) ''Authorization''
   \<and> snd (auth_fetch sampleDynamo (scenarioNet 200) ''https://daas.example/v1/graph/info''
            (Some \<lparr>rq_method = ''POST'', rq_headers = [(''Accept'', ''*/*'')], rq_body = None\<rparr>) [])
       = [Fetch ''https://daas.example/v1/graph/info''
            (Some \<lparr>rq_method = ''POST'',
                   rq_headers = [(''Accept'', ''*/*''), (''Authorization'', ''Bearer t'')],
                   rq_body = None\<rparr>)]
   \<and> hasHeader (rq_headers \<lparr>rq_method = ''POST'', rq_headers = [(''authorization'', ''Basic u'')],
                              rq_body = None\<rparr>) ''Authorization''
   \<and> snd (auth_fetch sampleDynamo (scenarioNet 200) ''https://daas.example/v1/graph/info''
            (Some \<lparr>rq_method = ''POST'', rq_headers = [(''authorization'', ''Basic u'')],
                   rq_body = None\<rparr>) [])
       = [Fetch ''https://daas.example/v1/graph/info''
            (Some \<lparr>rq_method = ''POST'', rq_headers = [(''authorization'', ''Basic u'')],
                   rq_body = None\<rparr>)]
   \<and> list_all (carriesAuthorization ''Bearer t'')
         (snd (info (\<lambda>x. []) sampleDynamo (scenarioNet 200) CurrentGraphTarget []))
   \<and> snd (serverInfo sampleDynamo (scenarioNet 200) [])
       = [Fetch ''https://daas.example/v1/server-info'' None]"
proof -
  have p: "authProvider sampleDynamo = Some (Inr ''Bearer t'')" by (simp add: sampleDynamo_def)
  have u: "url sampleDynamo = ''https://daas.example''" by (simp add: sampleDynamo_def)
  have h1: "\<not> hasHeader (rq_headers \<lparr>rq_method = ''POST'', rq_headers = [(''Accept'', ''*/*'')],
                                rq_body = None\<rparr>) ''Authorization''"
    by (simp add: hasHeader_def sameHeaderName_def lowerChar_def)
  have h2: "hasHeader (rq_headers \<lparr>rq_method = ''POST'', rq_headers = [(''authorization'', ''Basic u'')],
                              rq_body = None\<rparr>) ''Authorization''"
    by (simp add: hasHeader_def sameHeaderName_def lowerChar_def)
  have s: "setHeader [(''Accept'', ''*/*'')] ''Authorization'' ''Bearer t''
      = [(''Accept'', ''*/*''), (''Authorization'', ''Bearer t'')]"
    by (simp add: setHeader_def sameHeaderName_def lowerChar_def)
  note t1 = authorization_header_injected [OF p,
      of "\<lparr>rq_method = ''POST'', rq_headers = [(''Accept'', ''*/*'')], rq_body = None\<rparr>"
         "scenarioNet 200" "''https://daas.example/v1/graph/info''" "[]" "\<lambda>x. []"
         CurrentGraphTarget]
  note t2 = authorization_header_injected [OF p,
      of "\<lparr>rq_method = ''POST'', rq_headers = [(''authorization'', ''Basic u'')], rq_body = None\<rparr>"
         "scenarioNet 200" "''https://daas.example/v1/graph/info''" "[]" "\<lambda>x. []"
         CurrentGraphTarget]
  from t1 h1 s have a: "snd (auth_fetch sampleDynamo (scenarioNet 200) ''https://daas.example/v1/graph/info''
            (Some \<lparr>rq_method = ''POST'', rq_headers = [(''Accept'', ''*/*'')], rq_body = None\<rparr>) [])
       = [Fetch ''https://daas.example/v1/graph/info''
            (Some \<lparr>rq_method = ''POST'',
                   rq_headers = [(''Accept'', ''*/*''), (''Authorization'', ''Bearer t'')],
                   rq_body = None\<rparr>)]"
    by simp
  from t2 h2 have b: "snd (auth_fetch sampleDynamo (scenarioNet 200) ''https://daas.example/v1/graph/info''
            (Some \<lparr>rq_method = ''POST'', rq_headers = [(''authorization'', ''Basic u'')],
                   rq_body = None\<rparr>) [])
       = [Fetch ''https://daas.example/v1/graph/info''
            (Some \<lparr>rq_method = ''POST'', rq_headers = [(''authorization'', ''Basic u'')],
                   rq_body = None\<rparr>)]"
    by simp
  from t1 have c: "list_all (carriesAuthorization ''Bearer t'')
         (snd (info (\<lambda>x. []) sampleDynamo (scenarioNet 200) CurrentGraphTarget []))"
    by blast
  from t1 u have e: "snd (serverInfo sampleDynamo (scenarioNet 200) [])
       = [Fetch ''https://daas.example/v1/server-info'' None]"
    by simp
  from p h1 a h2 b c e show ?thesis by blast
qed

text \<open>
  Claim C9 as stated fails: with a provider configured, the upload request of the sample
  run and the server-info request are sent without an \<open>Authorization\<close> header.
\<close>

theorem authorization_header_missing_counterexample:
  "authProvider sampleDynamo = Some (Inr ''Bearer t'')
   \<and> snd (runAsync (\<lambda>x. []) sampleDynamo (scenarioNet 200) CurrentGraphTarget [] 1 []) ! 1
       = Fetch ''https://x'' (Some \<lparr>rq_method = ''PUT'', rq_headers = [],
                                     rq_body = Some (RunBody CurrentGraphTarget [])\<rparr>)
   \<and> \<not> list_all (carriesAuthorization ''Bearer t'')
         (snd (runAsync (\<lambda>x. []) sampleDynamo (scenarioNet 200) CurrentGraphTarget [] 1 []))
   \<and> snd (serverInfo sampleDynamo (scenarioNet 200) [])
       = [Fetch ''https://daas.example/v1/server-info'' None]
   \<and> \<not> list_all (carriesAuthorization ''Bearer t'')
         (snd (serverInfo sampleDynamo (scenarioNet 200) []))"
  using scenario_run [of "\<lambda>x. []" 200 CurrentGraphTarget "[]" 0]
  by (simp add: sampleDynamo_def serverInfo_def snd_responseJson auth_fetch_no_init
      carriesAuthorization_def getHeader_def)

section \<open>Failure of the info request\<close>





section \<open>Values of run inputs\<close>




end
